theory Spec2Isabelle
  imports Main "HOL-Library.Sublist"
begin

section \<open>The debug adapter bridge of mcp-dap-server (tools.go)\<close>

text \<open>
  The theory embeds the tool handlers of \<^verbatim>\<open>tools.go\<close>. Every handler is a method of
  \<^verbatim>\<open>debuggerSession\<close>: it reads and writes the session's fields, writes requests to the
  debug adapter through \<^verbatim>\<open>ds.client\<close>, reads the adapter's messages back, and spawns or
  kills the adapter's process. The session is passed explicitly; everything outside the
  server (the adapter, the operating system) is a \<open>world\<close> value holding the scripted
  outcomes of the calls still to come and the trace of the calls made so far.

  Go's \<^verbatim>\<open>int\<close> is \<open>int\<close> (the handlers only compare and print integers), a Go string is a
  \<open>string\<close>, a \<^verbatim>\<open>nil\<close> slice is the empty list, a nilable pointer is an \<open>option\<close>, and a Go
  \<^verbatim>\<open>error\<close> is its message text.
\<close>

subsection \<open>Protocol data (the go-dap types the handlers touch)\<close>

type_synonym error = string

record StackFrame =
  frame_Id :: int
  frame_Name :: string
  frame_Source :: "string option"  \<comment> \<open>\<^verbatim>\<open>Source\<close> pointer; when set, its \<^verbatim>\<open>Path\<close>\<close>
  frame_Line :: int
  frame_PresentationHint :: string

record Scope =
  scope_Name :: string
  scope_VariablesReference :: int

record Variable =
  var_Name :: string
  var_Type :: string
  var_Value :: string

record Breakpoint =
  bp_Id :: int
  bp_Verified :: bool
  bp_Message :: string
  bp_Line :: int

text \<open>
  A message read from the adapter. Every response carries the \<^verbatim>\<open>Success\<close> flag and the
  \<^verbatim>\<open>Message\<close> of the embedded \<^verbatim>\<open>dap.Response\<close>. \<open>OtherResponse\<close> and \<open>OtherEvent\<close> stand for
  the response and event types no handler names in a type switch; they carry the Go type
  name that \<^verbatim>\<open>%T\<close> prints. \<open>RequestMessage\<close> is a message that is neither a response nor
  an event (a reverse request).
\<close>

datatype message =
    StoppedEvent int
  | TerminatedEvent
  | OtherEvent string
  | StackTraceResponse bool string "StackFrame list"
  | ScopesResponse bool string "Scope list"
  | VariablesResponse bool string "Variable list"
  | SetBreakpointsResponse bool string "Breakpoint list"
  | EvaluateResponse bool string string string
  | LoadedSourcesResponse bool string "string list"
  | ModulesResponse bool string "(string \<times> string) list"
  | ErrorResponse bool string
  | OtherResponse string bool string
  | RequestMessage string

fun is_event :: "message \<Rightarrow> bool" where
  "is_event (StoppedEvent _) = True"
| "is_event TerminatedEvent = True"
| "is_event (OtherEvent _) = True"
| "is_event _ = False"

fun is_response :: "message \<Rightarrow> bool" where
  "is_response (StoppedEvent _) = False"
| "is_response TerminatedEvent = False"
| "is_response (OtherEvent _) = False"
| "is_response (RequestMessage _) = False"
| "is_response _ = True"

text \<open>\<^verbatim>\<open>resp.GetResponse().Success\<close> and \<^verbatim>\<open>resp.GetResponse().Message\<close>; only read on responses.\<close>

fun Success :: "message \<Rightarrow> bool" where
  "Success (StackTraceResponse ok _ _) = ok"
| "Success (ScopesResponse ok _ _) = ok"
| "Success (VariablesResponse ok _ _) = ok"
| "Success (SetBreakpointsResponse ok _ _) = ok"
| "Success (EvaluateResponse ok _ _ _) = ok"
| "Success (LoadedSourcesResponse ok _ _) = ok"
| "Success (ModulesResponse ok _ _) = ok"
| "Success (ErrorResponse ok _) = ok"
| "Success (OtherResponse _ ok _) = ok"
| "Success _ = False"

fun Message :: "message \<Rightarrow> string" where
  "Message (StackTraceResponse _ msg _) = msg"
| "Message (ScopesResponse _ msg _) = msg"
| "Message (VariablesResponse _ msg _) = msg"
| "Message (SetBreakpointsResponse _ msg _) = msg"
| "Message (EvaluateResponse _ msg _ _) = msg"
| "Message (LoadedSourcesResponse _ msg _) = msg"
| "Message (ModulesResponse _ msg _) = msg"
| "Message (ErrorResponse _ msg) = msg"
| "Message (OtherResponse _ _ msg) = msg"
| "Message _ = []"

text \<open>The Go type name of a message, as \<^verbatim>\<open>%T\<close> prints it.\<close>

fun typeName :: "message \<Rightarrow> string" where
  "typeName (StoppedEvent _) = ''*dap.StoppedEvent''"
| "typeName TerminatedEvent = ''*dap.TerminatedEvent''"
| "typeName (OtherEvent n) = n"
| "typeName (StackTraceResponse _ _ _) = ''*dap.StackTraceResponse''"
| "typeName (ScopesResponse _ _ _) = ''*dap.ScopesResponse''"
| "typeName (VariablesResponse _ _ _) = ''*dap.VariablesResponse''"
| "typeName (SetBreakpointsResponse _ _ _) = ''*dap.SetBreakpointsResponse''"
| "typeName (EvaluateResponse _ _ _ _) = ''*dap.EvaluateResponse''"
| "typeName (LoadedSourcesResponse _ _ _) = ''*dap.LoadedSourcesResponse''"
| "typeName (ModulesResponse _ _ _) = ''*dap.ModulesResponse''"
| "typeName (ErrorResponse _ _) = ''*dap.ErrorResponse''"
| "typeName (OtherResponse n _ _) = n"
| "typeName (RequestMessage n) = n"

text \<open>
  The requests the handlers write. \<^verbatim>\<open>DAPClient\<close> and its methods are declared in a file
  that is not part of the sources at hand; each method named in \<^verbatim>\<open>tools.go\<close> is taken to
  write the one request it is named after, with the arguments it is given, and to return
  the error of that write. \<open>RestartRequest\<close> carries the fields of the argument map that
  \<^verbatim>\<open>restartDebugger\<close> builds: request, mode, stopOnEntry, args, rebuild.
\<close>

datatype request =
    InitializeRequest
  | LaunchRequest string string bool "string list"
  | AttachRequest string int
  | SetBreakpointsRequest string "int list"
  | SetFunctionBreakpointsRequest "string list"
  | ConfigurationDoneRequest
  | ContinueRequest int
  | NextRequest int
  | StepInRequest int
  | StepOutRequest int
  | PauseRequest int
  | StackTraceRequest int int int
  | ScopesRequest int
  | VariablesRequest int
  | EvaluateRequest string int string
  | SetVariableRequest int string string
  | RestartRequest string string bool "string list" bool
  | TerminateRequest
  | DisconnectRequest bool
  | LoadedSourcesRequest
  | ModulesRequest
  | DisassembleRequest string int int

subsection \<open>The world outside the server\<close>

text \<open>
  One attempt to start the adapter (\<^verbatim>\<open>exec.Command\<close>, \<^verbatim>\<open>StdoutPipe\<close>, \<^verbatim>\<open>Start\<close>): the pipe
  cannot be made, the process cannot be started, or it starts and prints the given lines
  on its standard output before that stream ends.
\<close>

datatype spawn_outcome =
    PipeFails error
  | StartFails error
  | Starts "string list"

datatype io_event =
    Sent request
  | SendFailed request error
  | Received message
  | ReadFailed error
  | Spawned nat
  | Killed nat
  | KillFailed nat error
  | Waited nat
  | Connected nat string
  | Closed nat
  | Logged string

text \<open>
  \<open>inbox\<close>: what the successive calls of \<^verbatim>\<open>ReadMessage\<close> return (a message or a read
  error); the script is finite, and a read after its end finds the stream closed (an
  adapter that stays silent for ever with the stream open is not in the model).
  \<open>sendq\<close>: the outcomes of the successive request writes (\<open>None\<close> is success; after the
  script every write succeeds). \<open>spawnq\<close>, \<open>killq\<close>: the same for starting the adapter and
  for \<^verbatim>\<open>Process.Kill\<close>.
  \<open>fresh\<close>: the next unused process or connection number. \<open>trace\<close>: every effect so far,
  oldest first.
\<close>

record world =
  inbox :: "(error + message) list"
  sendq :: "error option list"
  spawnq :: "spawn_outcome list"
  killq :: "error option list"
  fresh :: nat
  trace :: "io_event list"

type_synonym 'a io = "world \<Rightarrow> (error + 'a) \<times> world"

definition succeed :: "'a \<Rightarrow> 'a io" where
  "succeed x w = (Inr x, w)"

definition failWith :: "error \<Rightarrow> 'a io" where
  "failWith e w = (Inl e, w)"

text \<open>\<^verbatim>\<open>if err := m; err != nil { return nil, err }\<close> followed by the rest of the body.\<close>

definition andThen :: "'a io \<Rightarrow> ('a \<Rightarrow> 'b io) \<Rightarrow> 'b io" where
  "andThen m f w = (case m w of (Inl e, w') \<Rightarrow> (Inl e, w') | (Inr x, w') \<Rightarrow> f x w')"

definition emit :: "io_event \<Rightarrow> world \<Rightarrow> world" where
  "emit e w = w\<lparr>trace := trace w @ [e]\<rparr>"

text \<open>
  Modelled from the spec: the transport of \<^verbatim>\<open>DAPClient\<close>, whose file is not among the
  sources. Section 4.1: \<^verbatim>\<open>send\<close> writes one whole message or fails with a transport error;
  \<^verbatim>\<open>receive\<close> returns exactly one decoded message, or a transport error on stream closure
  or malformed framing; \<^verbatim>\<open>connect\<close> establishes the stream. Here a write succeeds or fails
  as the world's script says, a read returns the next entry of the inbox, and a read
  after the last entry finds the stream closed. \<^verbatim>\<open>newDAPClient\<close> returns a client and no
  error in \<^verbatim>\<open>tools.go\<close> 580, so it is taken to connect and to give the client a number of
  its own.
\<close>

definition EOF :: error where
  "EOF = ''EOF''"

definition send :: "request \<Rightarrow> unit io" where
  "send r w =
     (case sendq w of
        [] \<Rightarrow> (Inr (), emit (Sent r) w)
      | None # q \<Rightarrow> (Inr (), emit (Sent r) (w\<lparr>sendq := q\<rparr>))
      | Some e # q \<Rightarrow> (Inl e, emit (SendFailed r e) (w\<lparr>sendq := q\<rparr>)))"

definition ReadMessage :: "message io" where
  "ReadMessage w =
     (case inbox w of
        [] \<Rightarrow> (Inl EOF, emit (ReadFailed EOF) w)
      | Inl e # rest \<Rightarrow> (Inl e, emit (ReadFailed e) (w\<lparr>inbox := rest\<rparr>))
      | Inr m # rest \<Rightarrow> (Inr m, emit (Received m) (w\<lparr>inbox := rest\<rparr>)))"

definition newDAPClient :: "string \<Rightarrow> world \<Rightarrow> nat \<times> world" where
  "newDAPClient addr w = (fresh w, emit (Connected (fresh w) addr) (w\<lparr>fresh := Suc (fresh w)\<rparr>))"

text \<open>\<^verbatim>\<open>log.Printf\<close>: the line goes to standard error.\<close>

definition logPrintf :: "string \<Rightarrow> world \<Rightarrow> world" where
  "logPrintf s w = emit (Logged s) w"

subsection \<open>Formatting\<close>

function showNat :: "nat \<Rightarrow> string" where
  "showNat n = (if n < 10 then [''0123456789'' ! n]
                else showNat (n div 10) @ [''0123456789'' ! (n mod 10)])"
  by pat_completeness auto
termination
  by (relation "measure id") auto

declare showNat.simps [simp del]

text \<open>\<^verbatim>\<open>%d\<close> of an integer.\<close>

definition showInt :: "int \<Rightarrow> string" where
  "showInt i = (if i < 0 then CHR ''-'' # showNat (nat (- i)) else showNat (nat i))"

text \<open>\<^verbatim>\<open>strings.Contains(s, sub)\<close>.\<close>

fun Contains :: "string \<Rightarrow> string \<Rightarrow> bool" where
  "Contains [] sub = (sub = [])"
| "Contains (c # s) sub = (prefix sub (c # s) \<or> Contains s sub)"

subsection \<open>The session\<close>

text \<open>
  \<^verbatim>\<open>exec.Cmd\<close>: its \<^verbatim>\<open>Process\<close> field is \<^verbatim>\<open>nil\<close> until \<^verbatim>\<open>Start\<close> succeeds. A \<^verbatim>\<open>DAPClient\<close> is
  the number of its connection.
\<close>

record Cmd =
  cmd_Args :: "string list"
  cmd_Process :: "nat option"

record debuggerSession =
  cmd :: "Cmd option"
  client :: "nat option"
  launchMode :: string
  programPath :: string
  programArgs :: "string list"

subsection \<open>readAndValidateResponse (tools.go 140-156)\<close>

function readAndValidateResponse :: "string \<Rightarrow> unit io" where
  "readAndValidateResponse errorPrefix w =
     (case ReadMessage w of
        (Inl err, w') \<Rightarrow> (Inl err, w')
      | (Inr msg, w') \<Rightarrow>
          if is_response msg then
            (if \<not> Success msg then (Inl (errorPrefix @ '': '' @ Message msg), w')
             else (Inr (), w'))
          else readAndValidateResponse errorPrefix w')"
  by pat_completeness auto
termination
  by (relation "measure (\<lambda>(p, w). length (inbox w))")
     (auto simp: ReadMessage_def emit_def split: list.splits sum.splits)

declare readAndValidateResponse.simps [simp del]

subsection \<open>getFullContext (tools.go 732-865)\<close>

text \<open>Lines 745-762: read until the stack trace response, skipping events.\<close>

function awaitStackTrace :: "StackFrame list io" where
  "awaitStackTrace w =
     (case ReadMessage w of
        (Inl err, w') \<Rightarrow> (Inl err, w')
      | (Inr msg, w') \<Rightarrow>
          (case msg of
             StackTraceResponse ok m frames \<Rightarrow>
               if \<not> ok then (Inl (''unable to get stack trace: '' @ m), w')
               else (Inr frames, w')
           | _ \<Rightarrow>
               if is_event msg then awaitStackTrace w'
               else (Inl (''unexpected response type: '' @ typeName msg), w')))"
  by pat_completeness auto
termination
  by (relation "measure (\<lambda>w. length (inbox w))")
     (auto simp: ReadMessage_def emit_def split: list.splits sum.splits)

declare awaitStackTrace.simps [simp del]

text \<open>Lines 766-774: the current location, from the top frame.\<close>

definition locationText :: "StackFrame list \<Rightarrow> string" where
  "locationText frames =
     (case frames of
        [] \<Rightarrow> []
      | topFrame # _ \<Rightarrow>
          ''## Current Location\<newline>'' @
          ''Function: '' @ frame_Name topFrame @ ''\<newline>'' @
          (case frame_Source topFrame of
             None \<Rightarrow> []
           | Some path \<Rightarrow> ''File: '' @ path @ '':'' @ showInt (frame_Line topFrame) @ ''\<newline>'') @
          ''\<newline>'')"

text \<open>Lines 778-787: one line per frame, \<open>i\<close> the index of the first frame of the list.\<close>

fun frameLines :: "nat \<Rightarrow> StackFrame list \<Rightarrow> string" where
  "frameLines i [] = []"
| "frameLines i (frame # rest) =
     (''#'' @ showNat i @ '' (Frame ID: '' @ showInt (frame_Id frame) @ '') '' @ frame_Name frame @
      (case frame_Source frame of
         None \<Rightarrow> []
       | Some path \<Rightarrow>
           if path \<noteq> [] then '' at '' @ path @ '':'' @ showInt (frame_Line frame) else []) @
      (if frame_PresentationHint frame = ''subtle'' then '' (runtime)'' else []) @
      ''\<newline>'') @ frameLines (Suc i) rest"

definition stackTraceText :: "StackFrame list \<Rightarrow> string" where
  "stackTraceText frames = ''## Stack Trace\<newline>'' @ frameLines 0 frames @ ''\<newline>''"

text \<open>
  Lines 801-821: read until the scopes response, skipping events. The result is the text
  written by the loop (the marker of a failed response) and the scopes.
\<close>

function awaitScopes :: "(string \<times> Scope list) io" where
  "awaitScopes w =
     (case ReadMessage w of
        (Inl err, w') \<Rightarrow> (Inl err, w')
      | (Inr msg, w') \<Rightarrow>
          (case msg of
             ScopesResponse ok m scopes \<Rightarrow>
               if \<not> ok then
                 (Inr (''## Variables\<newline>'' @ ''(unable to retrieve scopes)\<newline>'', []),
                  logPrintf (''getFullContext: scopes request failed: '' @ m) w')
               else (Inr ([], scopes), w')
           | _ \<Rightarrow>
               if is_event msg then awaitScopes w'
               else (Inl (''unexpected response type: '' @ typeName msg), w')))"
  by pat_completeness auto
termination
  by (relation "measure (\<lambda>w. length (inbox w))")
     (auto simp: ReadMessage_def emit_def split: list.splits sum.splits)

declare awaitScopes.simps [simp del]

text \<open>Lines 851-857: the listing of one scope's variables.\<close>

fun variableLines :: "Variable list \<Rightarrow> string" where
  "variableLines [] = []"
| "variableLines (v # vs) =
     (''  '' @ var_Name v @
      (if var_Type v \<noteq> [] then '' ('' @ var_Type v @ '')'' else []) @
      '' = '' @ var_Value v @ ''\<newline>'') @ variableLines vs"

definition unavailable :: string where
  "unavailable = ''  (unable to retrieve variables)\<newline>''"

text \<open>
  Lines 829-850: the variables of one scope, \<open>None\<close> when they could not be had. There is
  one read for the one request: the message read is taken as the answer whatever it is.
\<close>

definition fetchVariables :: "Scope \<Rightarrow> world \<Rightarrow> Variable list option \<times> world" where
  "fetchVariables scope w =
     (case send (VariablesRequest (scope_VariablesReference scope)) w of
        (Inl err, w1) \<Rightarrow>
          (None, logPrintf (''getFullContext: variables request failed for scope '' @
                            scope_Name scope @ '': '' @ err) w1)
      | (Inr _, w1) \<Rightarrow>
          (case ReadMessage w1 of
             (Inl err, w2) \<Rightarrow>
               (None, logPrintf (''getFullContext: reading variables response failed for scope '' @
                                 scope_Name scope @ '': '' @ err) w2)
           | (Inr varMsg, w2) \<Rightarrow>
               (case varMsg of
                  VariablesResponse ok m vars \<Rightarrow>
                    if \<not> ok then
                      (None, logPrintf (''getFullContext: variables request failed for scope '' @
                                        scope_Name scope @ '': '' @ m) w2)
                    else (Some vars, w2)
                | _ \<Rightarrow>
                    (None, logPrintf (''getFullContext: unexpected response type for variables: '' @
                                      typeName varMsg) w2))))"

text \<open>Lines 827-858: the body of the loop over the scopes.\<close>

definition renderScope :: "Scope \<Rightarrow> world \<Rightarrow> string \<times> world" where
  "renderScope scope w =
     (let header = ''### '' @ scope_Name scope @ ''\<newline>'' in
      if scope_VariablesReference scope > 0 then
        (case fetchVariables scope w of
           (None, w') \<Rightarrow> (header @ unavailable, w')
         | (Some vars, w') \<Rightarrow> (header @ variableLines vars, w'))
      else (header, w))"

fun renderScopes :: "Scope list \<Rightarrow> world \<Rightarrow> string \<times> world" where
  "renderScopes [] w = ([], w)"
| "renderScopes (scope # rest) w =
     (case renderScope scope w of
        (t, w') \<Rightarrow> (case renderScopes rest w' of (ts, w'') \<Rightarrow> (t @ ts, w'')))"

text \<open>Lines 824-860: the variables section, written only when there are scopes.\<close>

definition variablesSection :: "Scope list \<Rightarrow> world \<Rightarrow> string \<times> world" where
  "variablesSection scopes w =
     (if scopes \<noteq> [] then
        (case renderScopes scopes w of (ts, w') \<Rightarrow> (''## Variables\<newline>'' @ ts, w'))
      else ([], w))"

text \<open>Lines 740-762: the stack trace request and its answer.\<close>

definition fetchStack :: "int \<Rightarrow> int \<Rightarrow> StackFrame list io" where
  "fetchStack threadID maxFrames =
     andThen (send (StackTraceRequest threadID 0 maxFrames)) (\<lambda>_. awaitStackTrace)"

text \<open>Lines 791-794: the frame whose scopes are shown.\<close>

definition targetFrame :: "int \<Rightarrow> StackFrame list \<Rightarrow> int" where
  "targetFrame frameID frames =
     (case frames of
        [] \<Rightarrow> frameID
      | topFrame # _ \<Rightarrow> if frameID = 0 then frame_Id topFrame else frameID)"

text \<open>Lines 796-821: the scopes request and its answer.\<close>

definition fetchScopes :: "int \<Rightarrow> (string \<times> Scope list) io" where
  "fetchScopes targetFrameID =
     andThen (send (ScopesRequest targetFrameID)) (\<lambda>_. awaitScopes)"

definition getFullContext :: "debuggerSession \<Rightarrow> int \<Rightarrow> int \<Rightarrow> int \<Rightarrow> string io" where
  "getFullContext ds threadID frameID maxFrames =
     (if client ds = None then failWith ''debugger not started''
      else
        andThen (fetchStack threadID maxFrames) (\<lambda>frames.
        andThen (fetchScopes (targetFrame frameID frames)) (\<lambda>(note, scopes) w.
          (case variablesSection scopes w of
             (vars, w') \<Rightarrow>
               (Inr (locationText frames @ stackTraceText frames @ note @ vars), w')))))"

subsection \<open>Parameters of the tools\<close>

record BreakpointSpec =
  spec_File :: string
  spec_Line :: int
  spec_Function :: string

record DebugParams =
  Mode :: string
  Path :: string
  Args :: "string list"
  ProcessID :: int
  Breakpoints :: "BreakpointSpec list"
  StopOnEntry :: bool
  Port :: string

record ContextParams =
  ctx_ThreadID :: int
  ctx_FrameID :: int
  ctx_MaxFrames :: int

record StepParams =
  step_Mode :: string
  step_ThreadID :: int

record BreakpointToolParams =
  bpt_File :: string
  bpt_Line :: int
  bpt_Function :: string

record ClearBreakpointsParams =
  clear_File :: string
  clear_All :: bool

record ContinueParams =
  cont_ThreadID :: int
  cont_To :: "BreakpointSpec option"

record EvaluateParams =
  eval_Expression :: string
  eval_FrameID :: int
  eval_Context :: string

record SetVariableParams =
  setvar_VariablesReference :: int
  setvar_Name :: string
  setvar_Value :: string

record DisassembleParams =
  dis_MemoryReference :: string
  dis_InstructionOffset :: int
  dis_InstructionCount :: int

text \<open>A single quote, for the messages that end in one.\<close>

definition quote :: string where
  "quote = [CHR 0x27]"

subsection \<open>clearBreakpoints (tools.go 168-200)\<close>

definition clearBreakpoints :: "debuggerSession \<Rightarrow> ClearBreakpointsParams \<Rightarrow> string io" where
  "clearBreakpoints ds params =
     (if client ds = None then failWith ''debugger not started''
      else if clear_All params then
        andThen (send (SetFunctionBreakpointsRequest [])) (\<lambda>_.
        andThen ReadMessage (\<lambda>_.
        succeed ''Cleared all breakpoints''))
      else if clear_File params \<noteq> [] then
        andThen (send (SetBreakpointsRequest (clear_File params) [])) (\<lambda>_.
        andThen ReadMessage (\<lambda>_.
        succeed (''Cleared breakpoints in: '' @ clear_File params)))
      else failWith (''specify 'file' or 'all'' @ quote))"

subsection \<open>continueExecution (tools.go 209-253) and step (tools.go 682-729)\<close>

text \<open>
  Lines 235-252, and the same loop at lines 711-728 with another error prefix: read until
  a stopped or terminated event; a failed response ends the wait with an error, any other
  message is skipped.
\<close>

function awaitStopped :: "debuggerSession \<Rightarrow> string \<Rightarrow> string io" where
  "awaitStopped ds errorPrefix w =
     (case ReadMessage w of
        (Inl err, w') \<Rightarrow> (Inl err, w')
      | (Inr msg, w') \<Rightarrow>
          if is_response msg then
            (if \<not> Success msg then (Inl (errorPrefix @ Message msg), w')
             else awaitStopped ds errorPrefix w')
          else
            (case msg of
               StoppedEvent threadId \<Rightarrow> getFullContext ds threadId 0 20 w'
             | TerminatedEvent \<Rightarrow> (Inr ''Program terminated'', w')
             | _ \<Rightarrow> awaitStopped ds errorPrefix w'))"
  by pat_completeness auto
termination
  by (relation "measure (\<lambda>(ds, p, w). length (inbox w))")
     (auto simp: ReadMessage_def emit_def split: list.splits sum.splits)

declare awaitStopped.simps [simp del]

text \<open>Lines 215-229: the breakpoint of the \<^verbatim>\<open>to\<close> target, and one read.\<close>

definition setToBreakpoint :: "BreakpointSpec option \<Rightarrow> unit io" where
  "setToBreakpoint target =
     (case target of
        None \<Rightarrow> succeed ()
      | Some to \<Rightarrow>
          andThen
            (if spec_Function to \<noteq> [] then
               send (SetFunctionBreakpointsRequest [spec_Function to])
             else if spec_File to \<noteq> [] \<and> spec_Line to > 0 then
               send (SetBreakpointsRequest (spec_File to) [spec_Line to])
             else succeed ()) (\<lambda>_.
          andThen ReadMessage (\<lambda>_.
          succeed ())))"

definition continueExecution :: "debuggerSession \<Rightarrow> ContinueParams \<Rightarrow> string io" where
  "continueExecution ds params =
     (if client ds = None then failWith ''debugger not started''
      else
        andThen (setToBreakpoint (cont_To params)) (\<lambda>_.
        andThen (send (ContinueRequest (cont_ThreadID params))) (\<lambda>_.
        awaitStopped ds ''continue failed: '')))"

definition step :: "debuggerSession \<Rightarrow> StepParams \<Rightarrow> string io" where
  "step ds params =
     (if client ds = None then failWith ''debugger not started''
      else
        andThen
          (if step_Mode params = ''over'' then
             send (NextRequest (if step_ThreadID params = 0 then 1 else step_ThreadID params))
           else if step_Mode params = ''in'' then
             send (StepInRequest (if step_ThreadID params = 0 then 1 else step_ThreadID params))
           else if step_Mode params = ''out'' then
             send (StepOutRequest (if step_ThreadID params = 0 then 1 else step_ThreadID params))
           else failWith (''invalid step mode: '' @ step_Mode params @
                          '' (must be 'over', 'in', or 'out'' @ quote @ '')'')) (\<lambda>_.
        awaitStopped ds ''step failed: ''))"

subsection \<open>pauseExecution (tools.go 261-275)\<close>

definition pauseExecution :: "debuggerSession \<Rightarrow> int \<Rightarrow> string io" where
  "pauseExecution ds threadID =
     (if client ds = None then failWith ''debugger not started''
      else
        andThen (send (PauseRequest threadID)) (\<lambda>_.
        andThen (readAndValidateResponse ''unable to pause execution'') (\<lambda>_.
        succeed ''Paused execution'')))"

subsection \<open>evaluateExpression (tools.go 285-326)\<close>

function awaitEvaluate :: "string io" where
  "awaitEvaluate w =
     (case ReadMessage w of
        (Inl err, w') \<Rightarrow> (Inl err, w')
      | (Inr msg, w') \<Rightarrow>
          (case msg of
             EvaluateResponse ok m result ty \<Rightarrow>
               if \<not> ok then (Inl (''unable to evaluate expression: '' @ m), w')
               else (Inr (if ty \<noteq> [] then result @ '' (type: '' @ ty @ '')'' else result), w')
           | _ \<Rightarrow>
               if is_event msg then awaitEvaluate w'
               else (Inl (''unexpected response type: '' @ typeName msg), w')))"
  by pat_completeness auto
termination
  by (relation "measure (\<lambda>w. length (inbox w))")
     (auto simp: ReadMessage_def emit_def split: list.splits sum.splits)

declare awaitEvaluate.simps [simp del]

definition evaluateExpression :: "debuggerSession \<Rightarrow> EvaluateParams \<Rightarrow> string io" where
  "evaluateExpression ds params =
     (if client ds = None then failWith ''debugger not started''
      else
        andThen (send (EvaluateRequest (eval_Expression params) (eval_FrameID params)
                   (if eval_Context params = [] then ''repl'' else eval_Context params))) (\<lambda>_.
        awaitEvaluate))"

subsection \<open>setVariable (tools.go 336-358) and disassembleCode (tools.go 458-480)\<close>

definition setVariable :: "debuggerSession \<Rightarrow> SetVariableParams \<Rightarrow> string io" where
  "setVariable ds params =
     (if client ds = None then failWith ''debugger not started''
      else
        andThen (send (SetVariableRequest (setvar_VariablesReference params)
                   (setvar_Name params) (setvar_Value params))) (\<lambda>_.
        andThen ReadMessage (\<lambda>msg.
        if is_response msg then
          (if \<not> Success msg then failWith (''unable to set variable: '' @ Message msg)
           else succeed (''Set variable '' @ setvar_Name params @ '' to '' @ setvar_Value params))
        else failWith ''unexpected response type'')))"

definition disassembleCode :: "debuggerSession \<Rightarrow> DisassembleParams \<Rightarrow> string io" where
  "disassembleCode ds params =
     (if client ds = None then failWith ''debugger not started''
      else
        andThen (send (DisassembleRequest (dis_MemoryReference params)
                   (dis_InstructionOffset params) (dis_InstructionCount params))) (\<lambda>_.
        andThen ReadMessage (\<lambda>msg.
        if is_response msg then
          (if \<not> Success msg then failWith (''unable to disassemble: '' @ Message msg)
           else succeed ''Disassembled code'')
        else failWith ''unexpected response type'')))"

subsection \<open>restartDebugger (tools.go 366-388)\<close>

text \<open>The parameter is \<^verbatim>\<open>params.Arguments.Args\<close>, \<^verbatim>\<open>nil\<close> (the empty list) when it is left out.\<close>

definition restartDebugger :: "debuggerSession \<Rightarrow> string list \<Rightarrow> string io" where
  "restartDebugger ds args =
     (if client ds = None then failWith ''debugger not started''
      else
        andThen (send (RestartRequest ''launch'' ''exec'' False args False)) (\<lambda>_.
        andThen (readAndValidateResponse ''unable to restart debugger'') (\<lambda>_.
        succeed ''Restarted debugging session'')))"

subsection \<open>info (tools.go 391-448)\<close>

fun sourceLines :: "string list \<Rightarrow> string" where
  "sourceLines [] = []"
| "sourceLines (src # rest) = (''  '' @ src @ ''\<newline>'') @ sourceLines rest"

fun moduleLines :: "(string \<times> string) list \<Rightarrow> string" where
  "moduleLines [] = []"
| "moduleLines ((name, path) # rest) =
     (''  '' @ name @ '' ('' @ path @ '')'' @ ''\<newline>'') @ moduleLines rest"

definition info :: "debuggerSession \<Rightarrow> string \<Rightarrow> string io" where
  "info ds ty =
     (if client ds = None then failWith ''debugger not started''
      else if ty = ''sources'' then
        andThen (send LoadedSourcesRequest) (\<lambda>_.
        andThen ReadMessage (\<lambda>msg.
        (case msg of
           LoadedSourcesResponse ok m sources \<Rightarrow>
             if \<not> ok then failWith (''failed to get loaded sources: '' @ m)
             else succeed (''Loaded Sources:\<newline>'' @ sourceLines sources)
         | _ \<Rightarrow> failWith ''unexpected response type for loaded sources'')))
      else if ty = ''modules'' then
        andThen (send ModulesRequest) (\<lambda>_.
        andThen ReadMessage (\<lambda>msg.
        (case msg of
           ModulesResponse ok m modules \<Rightarrow>
             if \<not> ok then failWith (''failed to get modules: '' @ m)
             else succeed (''Loaded Modules:\<newline>'' @ moduleLines modules)
         | _ \<Rightarrow> failWith ''unexpected response type for modules'')))
      else failWith (''invalid type: '' @ ty @ '' (must be 'sources' or 'modules'' @ quote @ '')''))"

subsection \<open>context (tools.go 669-679)\<close>

definition context_tool :: "debuggerSession \<Rightarrow> ContextParams \<Rightarrow> string io" where
  "context_tool ds params =
     getFullContext ds
       (if ctx_ThreadID params = 0 then 1 else ctx_ThreadID params)
       (ctx_FrameID params)
       (if ctx_MaxFrames params = 0 then 20 else ctx_MaxFrames params)"

subsection \<open>breakpoint (tools.go 868-914)\<close>

definition breakpoint :: "debuggerSession \<Rightarrow> BreakpointToolParams \<Rightarrow> string io" where
  "breakpoint ds params =
     (if client ds = None then failWith ''debugger not started''
      else if bpt_Function params \<noteq> [] then
        andThen (send (SetFunctionBreakpointsRequest [bpt_Function params])) (\<lambda>_.
        andThen (readAndValidateResponse ''unable to set function breakpoint'') (\<lambda>_.
        succeed (''Breakpoint set on function: '' @ bpt_Function params)))
      else if bpt_File params = [] \<or> bpt_Line params = 0 then
        failWith ''either function or file+line is required''
      else
        andThen (send (SetBreakpointsRequest (bpt_File params) [bpt_Line params])) (\<lambda>_.
        andThen ReadMessage (\<lambda>msg.
        (case msg of
           SetBreakpointsResponse ok m bps \<Rightarrow>
             (case bps of
                [] \<Rightarrow> failWith ''unexpected response''
              | bp # _ \<Rightarrow>
                  if bp_Verified bp then
                    succeed (''Breakpoint '' @ showInt (bp_Id bp) @ '' set at '' @
                             bpt_File params @ '':'' @ showInt (bp_Line bp))
                  else failWith (''breakpoint not verified: '' @ bp_Message bp))
         | ErrorResponse ok m \<Rightarrow> failWith m
         | _ \<Rightarrow> failWith ''unexpected response''))))"

subsection \<open>stop (tools.go 483-522)\<close>

text \<open>
  \<^verbatim>\<open>Process.Kill\<close>: it succeeds or fails as the world's script says.
\<close>

definition Kill :: "nat \<Rightarrow> world \<Rightarrow> error option \<times> world" where
  "Kill pid w =
     (case killq w of
        [] \<Rightarrow> (None, emit (Killed pid) w)
      | None # q \<Rightarrow> (None, emit (Killed pid) (w\<lparr>killq := q\<rparr>))
      | Some e # q \<Rightarrow> (Some e, emit (KillFailed pid e) (w\<lparr>killq := q\<rparr>)))"

text \<open>Lines 491-500: terminate, disconnect, close; the errors are logged only.\<close>

definition closeClient :: "nat \<Rightarrow> world \<Rightarrow> world" where
  "closeClient c w =
     (let w1 = (case send TerminateRequest w of
                  (Inl err, w') \<Rightarrow> logPrintf (''error terminating debuggee: '' @ err) w'
                | (Inr _, w') \<Rightarrow> w');
          w2 = (case send (DisconnectRequest True) w1 of
                  (Inl err, w') \<Rightarrow> logPrintf (''error disconnecting: '' @ err) w'
                | (Inr _, w') \<Rightarrow> w')
      in emit (Closed c) w2)"

text \<open>Lines 503-512: kill the adapter and wait for it.\<close>

definition killProcess :: "nat \<Rightarrow> world \<Rightarrow> world" where
  "killProcess pid w =
     (let w1 = (case Kill pid w of
                  (None, w') \<Rightarrow> w'
                | (Some err, w') \<Rightarrow>
                    if \<not> Contains err ''process already finished''
                    then logPrintf (''error killing debugger process: '' @ err) w'
                    else w')
      in emit (Waited pid) w1)"

definition stop :: "debuggerSession \<Rightarrow> world \<Rightarrow> debuggerSession \<times> (error + string) \<times> world" where
  "stop ds w =
     (if cmd ds = None \<and> client ds = None then (ds, Inr ''No debug session active'', w)
      else
        let (ds1, w1) =
              (case client ds of
                 None \<Rightarrow> (ds, w)
               | Some c \<Rightarrow> (ds\<lparr>client := None\<rparr>, closeClient c w));
            (ds2, w2) =
              (case cmd ds1 of
                 None \<Rightarrow> (ds1, w1)
               | Some c \<Rightarrow>
                   (case cmd_Process c of
                      None \<Rightarrow> (ds1, w1)
                    | Some pid \<Rightarrow> (ds1\<lparr>cmd := None\<rparr>, killProcess pid w1)))
        in (ds2\<lparr>launchMode := [], programPath := [], programArgs := []\<rparr>,
            Inr ''Debug session stopped'', w2))"

subsection \<open>debug (tools.go 526-666)\<close>

text \<open>Lines 528-534: the listen address.\<close>

definition listenPort :: "string \<Rightarrow> string" where
  "listenPort p =
     (let port = (if p = [] then ''9090'' else p)
      in if \<not> prefix '':'' port then '':'' @ port else port)"

text \<open>Lines 538-554: the checks on the mode and on the field it requires.\<close>

definition validate :: "DebugParams \<Rightarrow> error option" where
  "validate params =
     (if Mode params \<noteq> ''source'' \<and> Mode params \<noteq> ''binary'' \<and> Mode params \<noteq> ''attach'' then
        Some (''invalid mode: '' @ Mode params @
              '' (must be 'source', 'binary', or 'attach'' @ quote @ '')'')
      else if Mode params = ''attach'' then
        (if ProcessID params = 0 then Some ''processId is required for attach mode'' else None)
      else
        (if Path params = [] then Some (''path is required for '' @ Mode params @ '' mode'')
         else None))"

text \<open>
  The outcome of the next attempt to start the adapter; when the script has run out, the
  executable is not found.
\<close>

definition nextSpawn :: "world \<Rightarrow> spawn_outcome \<times> world" where
  "nextSpawn w =
     (case spawnq w of
        [] \<Rightarrow> (StartFails ''executable file not found in $PATH'', w)
      | out # q \<Rightarrow> (out, w\<lparr>spawnq := q\<rparr>))"

text \<open>
  Lines 568-577: read the adapter's output line by line until the line that announces the
  listener; the end of the output is a read error.
\<close>

fun waitListening :: "string list \<Rightarrow> error option" where
  "waitListening [] = Some EOF"
| "waitListening (s # rest) =
     (if prefix ''DAP server listening at'' s then None else waitListening rest)"

text \<open>Lines 615-629: the body of the loop over the initial breakpoints.\<close>

definition setInitialBreakpoint :: "BreakpointSpec \<Rightarrow> unit io" where
  "setInitialBreakpoint bp =
     (if spec_Function bp \<noteq> [] then
        andThen (send (SetFunctionBreakpointsRequest [spec_Function bp])) (\<lambda>_.
        readAndValidateResponse ''unable to set function breakpoint'')
      else if spec_File bp \<noteq> [] \<and> spec_Line bp > 0 then
        andThen (send (SetBreakpointsRequest (spec_File bp) [spec_Line bp])) (\<lambda>_.
        andThen ReadMessage (\<lambda>_.
        succeed ()))
      else succeed ())"

fun setInitialBreakpoints :: "BreakpointSpec list \<Rightarrow> unit io" where
  "setInitialBreakpoints [] = succeed ()"
| "setInitialBreakpoints (bp # rest) =
     andThen (setInitialBreakpoint bp) (\<lambda>_. setInitialBreakpoints rest)"

text \<open>Lines 646-655: read until a stopped or terminated event, skipping everything else.\<close>

function awaitStoppedOrTerminated :: "unit io" where
  "awaitStoppedOrTerminated w =
     (case ReadMessage w of
        (Inl err, w') \<Rightarrow> (Inl err, w')
      | (Inr msg, w') \<Rightarrow>
          (case msg of
             StoppedEvent _ \<Rightarrow> (Inr (), w')
           | TerminatedEvent \<Rightarrow> (Inr (), w')
           | _ \<Rightarrow> awaitStoppedOrTerminated w'))"
  by pat_completeness auto
termination
  by (relation "measure (\<lambda>w. length (inbox w))")
     (auto simp: ReadMessage_def emit_def split: list.splits sum.splits)

declare awaitStoppedOrTerminated.simps [simp del]

text \<open>
  Lines 593-638: launch or attach, set the breakpoints, finish the configuration.
\<close>

definition configure :: "DebugParams \<Rightarrow> unit io" where
  "configure params =
     andThen
       (if Mode params = ''source'' then
          send (LaunchRequest ''debug'' (Path params)
                  (StopOnEntry params \<or> Breakpoints params = []) (Args params))
        else if Mode params = ''binary'' then
          send (LaunchRequest ''exec'' (Path params)
                  (StopOnEntry params \<or> Breakpoints params = []) (Args params))
        else if Mode params = ''attach'' then
          send (AttachRequest ''local'' (ProcessID params))
        else succeed ()) (\<lambda>_.
     andThen (readAndValidateResponse ''unable to start debug session'') (\<lambda>_.
     andThen (setInitialBreakpoints (Breakpoints params)) (\<lambda>_.
     andThen (send ConfigurationDoneRequest) (\<lambda>_.
     readAndValidateResponse ''unable to complete configuration''))))"

text \<open>
  Lines 593-665: after the configuration, either run to the first stop and return the
  full context, or report the start. The session is the one stored so far; it does not
  change any more.
\<close>

definition launchAndRun :: "debuggerSession \<Rightarrow> DebugParams \<Rightarrow> string io" where
  "launchAndRun ds params =
     andThen (configure params) (\<lambda>_.
     if Breakpoints params \<noteq> [] \<and> \<not> StopOnEntry params then
       andThen (send (ContinueRequest 0)) (\<lambda>_.
       andThen awaitStoppedOrTerminated (\<lambda>_.
       getFullContext ds 1 0 20))
     else
       succeed (''Debug session started for '' @ Path params @
                ''. Use 'breakpoint' to set breakpoints and 'continue' to run.''))"

text \<open>
  The whole handler. \<^verbatim>\<open>ds.cmd\<close> is assigned before the adapter is started, \<^verbatim>\<open>ds.client\<close>
  once it listens, and the launch mode, path and arguments after the handshake; an error
  return leaves the session as assigned so far.
\<close>

definition debug :: "debuggerSession \<Rightarrow> DebugParams \<Rightarrow> world \<Rightarrow>
    debuggerSession \<times> (error + string) \<times> world" where
  "debug ds params w =
     (case validate params of
        Some err \<Rightarrow> (ds, Inl err, w)
      | None \<Rightarrow>
          let port = listenPort (Port params);
              command = \<lparr>cmd_Args = [''dlv'', ''dap'', ''--listen'', port,
                                     ''--log'', ''--log-output'', ''dap''],
                         cmd_Process = None\<rparr>;
              ds1 = ds\<lparr>cmd := Some command\<rparr>
          in
          (case nextSpawn w of
             (PipeFails err, w1) \<Rightarrow> (ds1, Inl err, w1)
           | (StartFails err, w1) \<Rightarrow> (ds1, Inl err, w1)
           | (Starts output, w1) \<Rightarrow>
               let pid = fresh w1;
                   w2 = emit (Spawned pid) (w1\<lparr>fresh := Suc pid\<rparr>);
                   ds2 = ds\<lparr>cmd := Some (command\<lparr>cmd_Process := Some pid\<rparr>)\<rparr>
               in
               (case waitListening output of
                  Some err \<Rightarrow> (ds2, Inl err, w2)
                | None \<Rightarrow>
                    let (c, w3) = newDAPClient (''localhost'' @ port) w2;
                        ds3 = ds2\<lparr>client := Some c\<rparr>
                    in
                    (case andThen (send InitializeRequest) (\<lambda>_. ReadMessage) w3 of
                       (Inl err, w4) \<Rightarrow> (ds3, Inl err, w4)
                     | (Inr _, w4) \<Rightarrow>
                         let ds4 = ds3\<lparr>launchMode := Mode params,
                                       programPath := Path params,
                                       programArgs := Args params\<rparr>
                         in (ds4, launchAndRun ds4 params w4)))))"

subsection \<open>The tools registered with the server (tools.go 26-92)\<close>

datatype tool_call =
    Debug DebugParams
  | Stop
  | Restart "string list"
  | BreakpointTool BreakpointToolParams
  | ClearBreakpoints ClearBreakpointsParams
  | Continue ContinueParams
  | Step StepParams
  | Pause int
  | Context ContextParams
  | Evaluate EvaluateParams
  | SetVariable SetVariableParams
  | Info string
  | Disassemble DisassembleParams

fun callTool :: "debuggerSession \<Rightarrow> tool_call \<Rightarrow> world \<Rightarrow>
    debuggerSession \<times> (error + string) \<times> world" where
  "callTool ds (Debug params) w = debug ds params w"
| "callTool ds Stop w = stop ds w"
| "callTool ds (Restart args) w = (ds, restartDebugger ds args w)"
| "callTool ds (BreakpointTool params) w = (ds, breakpoint ds params w)"
| "callTool ds (ClearBreakpoints params) w = (ds, clearBreakpoints ds params w)"
| "callTool ds (Continue params) w = (ds, continueExecution ds params w)"
| "callTool ds (Step params) w = (ds, step ds params w)"
| "callTool ds (Pause threadID) w = (ds, pauseExecution ds threadID w)"
| "callTool ds (Context params) w = (ds, context_tool ds params w)"
| "callTool ds (Evaluate params) w = (ds, evaluateExpression ds params w)"
| "callTool ds (SetVariable params) w = (ds, setVariable ds params w)"
| "callTool ds (Info ty) w = (ds, info ds ty w)"
| "callTool ds (Disassemble params) w = (ds, disassembleCode ds params w)"

text \<open>
  A run of the server: the tool calls one after the other on the one session that
  \<^verbatim>\<open>registerTools\<close> creates, each on the session and the world the calls before it left.
\<close>

fun callTools :: "debuggerSession \<Rightarrow> tool_call list \<Rightarrow> world \<Rightarrow>
    debuggerSession \<times> (error + string) list \<times> world" where
  "callTools ds [] w = (ds, [], w)"
| "callTools ds (c # cs) w =
     (case callTool ds c w of
        (ds', r, w') \<Rightarrow> (case callTools ds' cs w' of (ds'', rs, w'') \<Rightarrow> (ds'', r # rs, w'')))"

text \<open>The session of \<^verbatim>\<open>registerTools\<close>: \<^verbatim>\<open>&debuggerSession{}\<close>.\<close>

definition idle :: debuggerSession where
  "idle = \<lparr>cmd = None, client = None, launchMode = [], programPath = [], programArgs = []\<rparr>"

subsection \<open>Reading the trace\<close>

text \<open>
  The events a call added to the trace, and the property that a call only added events,
  every one of them in \<open>P\<close>.
\<close>

definition newEvents :: "world \<Rightarrow> world \<Rightarrow> io_event list" where
  "newEvents w w' = drop (length (trace w)) (trace w')"

definition grows :: "(io_event \<Rightarrow> bool) \<Rightarrow> world \<Rightarrow> world \<Rightarrow> bool" where
  "grows P w w' =
     (take (length (trace w)) (trace w') = trace w \<and> list_all P (newEvents w w'))"

definition quiet :: "(io_event \<Rightarrow> bool) \<Rightarrow> (world \<Rightarrow> 'a \<times> world) \<Rightarrow> bool" where
  "quiet P m = (\<forall>w. grows P w (snd (m w)))"

text \<open>The events that write nothing and touch no process or connection.\<close>

fun inert :: "io_event \<Rightarrow> bool" where
  "inert (SendFailed _ _) = True"
| "inert (Received _) = True"
| "inert (ReadFailed _) = True"
| "inert (Logged _) = True"
| "inert _ = False"

text \<open>The requests of \<open>getFullContext\<close>.\<close>

fun inspecting :: "request \<Rightarrow> bool" where
  "inspecting (StackTraceRequest _ _ _) = True"
| "inspecting (ScopesRequest _) = True"
| "inspecting (VariablesRequest _) = True"
| "inspecting _ = False"

text \<open>The requests of \<open>configure\<close>.\<close>

fun configuring :: "request \<Rightarrow> bool" where
  "configuring (LaunchRequest _ _ _ _) = True"
| "configuring (AttachRequest _ _) = True"
| "configuring (SetFunctionBreakpointsRequest ns) = (length ns = 1)"
| "configuring (SetBreakpointsRequest _ ls) = (length ls = 1)"
| "configuring ConfigurationDoneRequest = True"
| "configuring _ = False"

text \<open>
  The events in which at most one line, and at most one function, is set per request;
  the events that are not the write of a continue request; the events that end no
  process and no connection.
\<close>

fun routine :: "io_event \<Rightarrow> bool" where
  "routine (Sent (SetBreakpointsRequest _ ls)) = (length ls \<le> 1)"
| "routine (Sent (SetFunctionBreakpointsRequest ns)) = (length ns \<le> 1)"
| "routine _ = True"


fun noTeardown :: "io_event \<Rightarrow> bool" where
  "noTeardown (Killed _) = False"
| "noTeardown (Closed _) = False"
| "noTeardown _ = True"

text \<open>The events that are not the write of a request.\<close>

fun notSent :: "io_event \<Rightarrow> bool" where
  "notSent (Sent _) = False"
| "notSent _ = True"


text \<open>The adapter processes started and not killed, in the order they were started.\<close>

fun runningStep :: "nat list \<Rightarrow> io_event \<Rightarrow> nat list" where
  "runningStep ps (Spawned pid) = ps @ [pid]"
| "runningStep ps (Killed pid) = removeAll pid ps"
| "runningStep ps _ = ps"

definition running :: "io_event list \<Rightarrow> nat list" where
  "running tr = foldl runningStep [] tr"

subsection \<open>Example values for the closed instances\<close>

text \<open>
  A session as \<open>debug\<close> leaves it (adapter process 1, connection 2), and the world around
  it with a given script of adapter messages.
\<close>

definition exampleSession :: debuggerSession where
  "exampleSession =
     \<lparr>cmd = Some \<lparr>cmd_Args = [''dlv'', ''dap'', ''--listen'', '':9090'',
                              ''--log'', ''--log-output'', ''dap''],
                  cmd_Process = Some 1\<rparr>,
      client = Some 2, launchMode = ''binary'', programPath = ''/tmp/prog'',
      programArgs = [''world'']\<rparr>"

definition exampleWorld :: "(error + message) list \<Rightarrow> world" where
  "exampleWorld msgs =
     \<lparr>inbox = msgs, sendq = [], spawnq = [], killq = [], fresh = 3,
      trace = [Spawned 1, Connected 2 ''localhost:9090'']\<rparr>"

definition mainFrame :: StackFrame where
  "mainFrame =
     \<lparr>frame_Id = 1000, frame_Name = ''main.main'', frame_Source = Some ''/src/main.go'',
      frame_Line = 7, frame_PresentationHint = []\<rparr>"





text \<open>
  A call of \<open>debug\<close> for a binary with one argument, and a world in which the adapter's
  executable cannot be started.
\<close>

definition binaryParams :: DebugParams where
  "binaryParams =
     \<lparr>Mode = ''binary'', Path = ''/tmp/prog'', Args = [''world''], ProcessID = 0,
      Breakpoints = [], StopOnEntry = False, Port = []\<rparr>"

definition noDlvWorld :: world where
  "noDlvWorld =
     \<lparr>inbox = [], sendq = [], spawnq = [StartFails ''exec: dlv: executable file not found''],
      killq = [], fresh = 1, trace = []\<rparr>"

subsection \<open>The adapter's breakpoint tables\<close>

text \<open>
  Modelled from the spec: the breakpoint tables of the debug adapter, which is not part
  of the sources. Section 4.4: each "set breakpoints for file F" request replaces the
  entire table for F, and "set function breakpoints" replaces the whole
  function-breakpoint table. The tables are the adapter's, so a new connection (to a new
  adapter) starts from empty tables. \<open>fileTable file tr\<close> is the list of lines armed in
  \<open>file\<close> after the requests written in the trace \<open>tr\<close>, \<open>functionTable tr\<close> the list of
  functions armed.
\<close>

fun fileStep :: "string \<Rightarrow> int list \<Rightarrow> io_event \<Rightarrow> int list" where
  "fileStep file lines (Sent (SetBreakpointsRequest f ls)) = (if f = file then ls else lines)"
| "fileStep file lines (Connected _ _) = []"
| "fileStep file lines _ = lines"

definition fileTable :: "string \<Rightarrow> io_event list \<Rightarrow> int list" where
  "fileTable file tr = foldl (fileStep file) [] tr"

fun functionStep :: "string list \<Rightarrow> io_event \<Rightarrow> string list" where
  "functionStep names (Sent (SetFunctionBreakpointsRequest ns)) = ns"
| "functionStep names (Connected _ _) = []"
| "functionStep names _ = names"

definition functionTable :: "io_event list \<Rightarrow> string list" where
  "functionTable tr = foldl functionStep [] tr"

text \<open>The events that leave every file's table as it is.\<close>

fun keepsFileTables :: "io_event \<Rightarrow> bool" where
  "keepsFileTables (Sent (SetBreakpointsRequest _ _)) = False"
| "keepsFileTables (Connected _ _) = False"
| "keepsFileTables _ = True"

text \<open>
  One request per initial breakpoint, holding that breakpoint alone: what the loop over
  the initial breakpoints is to write for one of them.
\<close>

definition requestOf :: "BreakpointSpec \<Rightarrow> request list" where
  "requestOf bp =
     (if spec_Function bp \<noteq> [] then [SetFunctionBreakpointsRequest [spec_Function bp]]
      else if spec_File bp \<noteq> [] \<and> spec_Line bp > 0
      then [SetBreakpointsRequest (spec_File bp) [spec_Line bp]]
      else [])"

text \<open>The requests written, in order.\<close>

fun requestsSent :: "io_event list \<Rightarrow> request list" where
  "requestsSent [] = []"
| "requestsSent (Sent r # es) = r # requestsSent es"
| "requestsSent (_ # es) = requestsSent es"

text \<open>
  A call of \<open>debug\<close> for a binary with two initial breakpoints in one file, and a world in
  which the adapter starts, answers every request and stops the program at a breakpoint.
\<close>

definition twoBreakpointParams :: DebugParams where
  "twoBreakpointParams =
     \<lparr>Mode = ''binary'', Path = ''/tmp/prog'', Args = [], ProcessID = 0,
      Breakpoints = [\<lparr>spec_File = ''/src/main.go'', spec_Line = 3, spec_Function = []\<rparr>,
                     \<lparr>spec_File = ''/src/main.go'', spec_Line = 9, spec_Function = []\<rparr>],
      StopOnEntry = False, Port = []\<rparr>"

definition startingWorld :: world where
  "startingWorld =
     \<lparr>inbox = [Inr (OtherResponse ''*dap.InitializeResponse'' True []),
               Inr (OtherEvent ''*dap.InitializedEvent''),
               Inr (OtherResponse ''*dap.LaunchResponse'' True []),
               Inr (SetBreakpointsResponse True []
                      [\<lparr>bp_Id = 1, bp_Verified = True, bp_Message = [], bp_Line = 3\<rparr>]),
               Inr (SetBreakpointsResponse True []
                      [\<lparr>bp_Id = 2, bp_Verified = True, bp_Message = [], bp_Line = 9\<rparr>]),
               Inr (OtherResponse ''*dap.ConfigurationDoneResponse'' True []),
               Inr (OtherResponse ''*dap.ContinueResponse'' True []),
               Inr (StoppedEvent 1),
               Inr (StackTraceResponse True [] [mainFrame]),
               Inr (ScopesResponse True [] [])],
      sendq = [],
      spawnq = [Starts [''API server listening'', ''DAP server listening at: 127.0.0.1:9090'']],
      killq = [], fresh = 1, trace = []\<rparr>"

text \<open>
  The world around the example session when \<open>debug\<close> is called a second time: a second
  adapter starts and answers the handshake, the launch and the end of the configuration.
\<close>

definition secondStartWorld :: world where
  "secondStartWorld =
     (exampleWorld [Inr (OtherResponse ''*dap.InitializeResponse'' True []),
                    Inr (OtherResponse ''*dap.LaunchResponse'' True []),
                    Inr (OtherResponse ''*dap.ConfigurationDoneResponse'' True [])])
       \<lparr>spawnq := [Starts [''DAP server listening at: 127.0.0.1:9090'']]\<rparr>"

text \<open>
  The initial breakpoints that \<open>debug\<close> sets by file and line in a given file, in the order
  supplied (a breakpoint that names a function is set by function, whatever its file),
  and the lines of that file left armed by setting them one request at a time: the line
  of the last of them.
\<close>

definition fileBreakpointsOf :: "string \<Rightarrow> BreakpointSpec list \<Rightarrow> BreakpointSpec list" where
  "fileBreakpointsOf file bps =
     filter (\<lambda>bp. spec_Function bp = [] \<and> spec_File bp \<noteq> [] \<and> 0 < spec_Line bp \<and>
                  spec_File bp = file) bps"

definition lastArmed :: "string \<Rightarrow> BreakpointSpec list \<Rightarrow> int list" where
  "lastArmed file bps =
     (case fileBreakpointsOf file bps of
        [] \<Rightarrow> []
      | bp # rest \<Rightarrow> [spec_Line (last (bp # rest))])"

text \<open>
  A call of \<open>debug\<close> with initial breakpoints in two files and on a function, and a world in
  which the adapter answers each of them and stops the program.
\<close>

definition mixedBreakpointParams :: DebugParams where
  "mixedBreakpointParams =
     \<lparr>Mode = ''binary'', Path = ''/tmp/prog'', Args = [], ProcessID = 0,
      Breakpoints = [\<lparr>spec_File = ''/src/main.go'', spec_Line = 3, spec_Function = []\<rparr>,
                     \<lparr>spec_File = ''/src/util.go'', spec_Line = 5, spec_Function = []\<rparr>,
                     \<lparr>spec_File = ''/src/main.go'', spec_Line = 4, spec_Function = ''main.run''\<rparr>,
                     \<lparr>spec_File = ''/src/main.go'', spec_Line = 9, spec_Function = []\<rparr>],
      StopOnEntry = False, Port = []\<rparr>"

definition mixedStartingWorld :: world where
  "mixedStartingWorld =
     \<lparr>inbox = [Inr (OtherResponse ''*dap.InitializeResponse'' True []),
               Inr (OtherResponse ''*dap.LaunchResponse'' True []),
               Inr (SetBreakpointsResponse True []
                      [\<lparr>bp_Id = 1, bp_Verified = True, bp_Message = [], bp_Line = 3\<rparr>]),
               Inr (SetBreakpointsResponse True []
                      [\<lparr>bp_Id = 2, bp_Verified = True, bp_Message = [], bp_Line = 5\<rparr>]),
               Inr (OtherResponse ''*dap.SetFunctionBreakpointsResponse'' True []),
               Inr (SetBreakpointsResponse True []
                      [\<lparr>bp_Id = 4, bp_Verified = True, bp_Message = [], bp_Line = 9\<rparr>]),
               Inr (OtherResponse ''*dap.ConfigurationDoneResponse'' True []),
               Inr (StoppedEvent 1),
               Inr (StackTraceResponse True [] [mainFrame]),
               Inr (ScopesResponse True [] [])],
      sendq = [],
      spawnq = [Starts [''DAP server listening at: 127.0.0.1:9090'']],
      killq = [], fresh = 1, trace = []\<rparr>"


subsection \<open>One scope's variables failing to arrive\<close>






section \<open>Properties\<close>

subsection \<open>What a call adds to the trace\<close>

lemma grows_iff: "grows P w w' \<longleftrightarrow> (\<exists>new. trace w' = trace w @ new \<and> list_all P new)"
proof
  assume g: "grows P w w'"
  have "trace w' = take (length (trace w)) (trace w') @ drop (length (trace w)) (trace w')"
    by simp
  with g show "\<exists>new. trace w' = trace w @ new \<and> list_all P new"
    unfolding grows_def newEvents_def by metis
next
  assume "\<exists>new. trace w' = trace w @ new \<and> list_all P new"
  then show "grows P w w'"
    by (auto simp: grows_def newEvents_def)
qed

lemma grows_refl [simp]: "grows P w w"
  by (simp add: grows_iff)

lemma grows_trans: "grows P w w1 \<Longrightarrow> grows P w1 w2 \<Longrightarrow> grows P w w2"
  by (auto simp: grows_iff)

lemma grows_mono: "grows P w w' \<Longrightarrow> (\<And>e. P e \<Longrightarrow> P' e) \<Longrightarrow> grows P' w w'"
  by (auto simp: grows_iff list_all_iff)

lemma grows_newEvents: "grows P w w' \<Longrightarrow> trace w' = trace w @ newEvents w w'"
  by (auto simp: grows_iff newEvents_def)

lemma grows_emit: "P e \<Longrightarrow> grows P w (emit e w)"
  by (simp add: grows_iff emit_def)

lemma grows_logPrintf: "P (Logged s) \<Longrightarrow> grows P w (logPrintf s w)"
  by (simp add: logPrintf_def grows_emit)

lemma quietI: "(\<And>w. grows P w (snd (m w))) \<Longrightarrow> quiet P m"
  by (simp add: quiet_def)

lemma quietD: "quiet P m \<Longrightarrow> grows P w (snd (m w))"
  by (simp add: quiet_def)

lemma quietD2: "quiet P m \<Longrightarrow> m w = (r, w') \<Longrightarrow> grows P w w'"
  by (auto simp: quiet_def dest: spec[of _ w])

lemma quiet_mono: "quiet P m \<Longrightarrow> (\<And>e. P e \<Longrightarrow> P' e) \<Longrightarrow> quiet P' m"
  unfolding quiet_def by (blast intro: grows_mono)

lemma quiet_succeed [simp]: "quiet P (succeed x)"
  by (simp add: quiet_def succeed_def)

lemma quiet_failWith [simp]: "quiet P (failWith e)"
  by (simp add: quiet_def failWith_def)

lemma quiet_send: "P (Sent r) \<Longrightarrow> (\<And>e. inert e \<Longrightarrow> P e) \<Longrightarrow> quiet P (send r)"
  by (auto simp: quiet_def send_def grows_iff emit_def split: list.splits option.splits)

lemma quiet_ReadMessage: "(\<And>e. inert e \<Longrightarrow> P e) \<Longrightarrow> quiet P ReadMessage"
  by (auto simp: quiet_def ReadMessage_def grows_iff emit_def split: list.splits sum.splits)

lemma quiet_andThen:
  assumes m: "quiet P m" and f: "\<And>x. quiet P (f x)"
  shows "quiet P (andThen m f)"
proof (rule quietI)
  fix w
  obtain r w1 where mw: "m w = (r, w1)"
    by (cases "m w")
  from quietD2[OF m mw] have g1: "grows P w w1" .
  show "grows P w (snd (andThen m f w))"
  proof (cases r)
    case (Inl e)
    with mw g1 show ?thesis
      by (simp add: andThen_def)
  next
    case (Inr x)
    from quietD[OF f[of x], of w1] have "grows P w1 (snd (f x w1))" .
    with g1 have "grows P w (snd (f x w1))"
      by (rule grows_trans)
    with mw Inr show ?thesis
      by (simp add: andThen_def)
  qed
qed

text \<open>The step of every read loop: the read, then what the loop does with its result.\<close>

lemma grows_after_read:
  assumes inert: "\<And>e. inert e \<Longrightarrow> P e"
    and rm: "ReadMessage w = (r, w1)"
    and rest: "grows P w1 w2"
  shows "grows P w w2"
proof -
  from quietD2[OF quiet_ReadMessage[of P, OF inert] rm] have "grows P w w1" .
  then show ?thesis using rest by (rule grows_trans)
qed

lemma quiet_readAndValidateResponse:
  assumes inert: "\<And>e. inert e \<Longrightarrow> P e"
  shows "quiet P (readAndValidateResponse p)"
proof (rule quietI)
  fix w
  show "grows P w (snd (readAndValidateResponse p w))"
  proof (induction p w rule: readAndValidateResponse.induct)
    case (1 errorPrefix w)
    obtain r w1 where rm: "ReadMessage w = (r, w1)"
      by (cases "ReadMessage w")
    have "grows P w1 (snd (readAndValidateResponse errorPrefix w))"
    proof (cases r)
      case (Inl e)
      with rm show ?thesis
        by (simp add: readAndValidateResponse.simps[of errorPrefix w])
    next
      case (Inr msg)
      show ?thesis
      proof (cases "is_response msg")
        case True
        with rm Inr show ?thesis
          by (simp add: readAndValidateResponse.simps[of errorPrefix w])
      next
        case False
        from "1.IH"[OF rm[unfolded Inr, symmetric] refl False] rm Inr False show ?thesis
          by (simp add: readAndValidateResponse.simps[of errorPrefix w])
      qed
    qed
    with inert rm show ?case
      by (rule grows_after_read)
  qed
qed

lemma quiet_awaitStackTrace:
  assumes inert: "\<And>e. inert e \<Longrightarrow> P e"
  shows "quiet P awaitStackTrace"
proof (rule quietI)
  fix w
  show "grows P w (snd (awaitStackTrace w))"
  proof (induction w rule: awaitStackTrace.induct)
    case (1 w)
    obtain r w1 where rm: "ReadMessage w = (r, w1)"
      by (cases "ReadMessage w")
    have "grows P w1 (snd (awaitStackTrace w))"
    proof (cases r)
      case (Inl e)
      with rm show ?thesis
        by (simp add: awaitStackTrace.simps[of w])
    next
      case (Inr msg)
      with "1.IH"[OF rm[unfolded Inr, symmetric] refl] rm show ?thesis
        by (cases msg) (simp_all add: awaitStackTrace.simps[of w])
    qed
    with inert rm show ?case
      by (rule grows_after_read)
  qed
qed

lemma quiet_awaitScopes:
  assumes inert: "\<And>e. inert e \<Longrightarrow> P e"
  shows "quiet P awaitScopes"
proof (rule quietI)
  fix w
  show "grows P w (snd (awaitScopes w))"
  proof (induction w rule: awaitScopes.induct)
    case (1 w)
    obtain r w1 where rm: "ReadMessage w = (r, w1)"
      by (cases "ReadMessage w")
    have "grows P w1 (snd (awaitScopes w))"
    proof (cases r)
      case (Inl e)
      with rm show ?thesis
        by (simp add: awaitScopes.simps[of w])
    next
      case (Inr msg)
      with "1.IH"[OF rm[unfolded Inr, symmetric] refl] rm show ?thesis
        by (cases msg) (simp_all add: awaitScopes.simps[of w] grows_logPrintf inert)
    qed
    with inert rm show ?case
      by (rule grows_after_read)
  qed
qed

lemma quiet_awaitEvaluate:
  assumes inert: "\<And>e. inert e \<Longrightarrow> P e"
  shows "quiet P awaitEvaluate"
proof (rule quietI)
  fix w
  show "grows P w (snd (awaitEvaluate w))"
  proof (induction w rule: awaitEvaluate.induct)
    case (1 w)
    obtain r w1 where rm: "ReadMessage w = (r, w1)"
      by (cases "ReadMessage w")
    have "grows P w1 (snd (awaitEvaluate w))"
    proof (cases r)
      case (Inl e)
      with rm show ?thesis
        by (simp add: awaitEvaluate.simps[of w])
    next
      case (Inr msg)
      with "1.IH"[OF rm[unfolded Inr, symmetric] refl] rm show ?thesis
        by (cases msg) (simp_all add: awaitEvaluate.simps[of w])
    qed
    with inert rm show ?case
      by (rule grows_after_read)
  qed
qed

lemma quiet_awaitStoppedOrTerminated:
  assumes inert: "\<And>e. inert e \<Longrightarrow> P e"
  shows "quiet P awaitStoppedOrTerminated"
proof (rule quietI)
  fix w
  show "grows P w (snd (awaitStoppedOrTerminated w))"
  proof (induction w rule: awaitStoppedOrTerminated.induct)
    case (1 w)
    obtain r w1 where rm: "ReadMessage w = (r, w1)"
      by (cases "ReadMessage w")
    have "grows P w1 (snd (awaitStoppedOrTerminated w))"
    proof (cases r)
      case (Inl e)
      with rm show ?thesis
        by (simp add: awaitStoppedOrTerminated.simps[of w])
    next
      case (Inr msg)
      with "1.IH"[OF rm[unfolded Inr, symmetric] refl] rm show ?thesis
        by (cases msg) (simp_all add: awaitStoppedOrTerminated.simps[of w])
    qed
    with inert rm show ?case
      by (rule grows_after_read)
  qed
qed


subsection \<open>The trace of getFullContext\<close>

lemma quiet_fetchVariables:
  assumes inert: "\<And>e. inert e \<Longrightarrow> P e" and ins: "\<And>r. inspecting r \<Longrightarrow> P (Sent r)"
  shows "quiet P (fetchVariables scope)"
proof (rule quietI)
  fix w
  obtain r w1 where sw: "send (VariablesRequest (scope_VariablesReference scope)) w = (r, w1)"
    by (cases "send (VariablesRequest (scope_VariablesReference scope)) w")
  have g1: "grows P w w1"
    by (rule quietD2[OF quiet_send sw]) (simp_all add: ins inert)
  have "grows P w1 (snd (fetchVariables scope w))"
  proof (cases r)
    case (Inl e)
    with sw show ?thesis
      by (simp add: fetchVariables_def grows_logPrintf inert)
  next
    case (Inr u)
    obtain r2 w2 where rm: "ReadMessage w1 = (r2, w2)"
      by (cases "ReadMessage w1")
    have "grows P w2 (snd (fetchVariables scope w))"
    proof (cases r2)
      case (Inl e)
      with sw Inr rm show ?thesis
        by (simp add: fetchVariables_def grows_logPrintf inert)
    next
      case (Inr msg)
      with sw \<open>r = Inr u\<close> rm show ?thesis
        by (cases msg) (simp_all add: fetchVariables_def grows_logPrintf inert)
    qed
    with inert rm show ?thesis
      by (rule grows_after_read)
  qed
  with g1 show "grows P w (snd (fetchVariables scope w))"
    by (rule grows_trans)
qed

lemma quiet_renderScope:
  assumes inert: "\<And>e. inert e \<Longrightarrow> P e" and ins: "\<And>r. inspecting r \<Longrightarrow> P (Sent r)"
  shows "quiet P (renderScope scope)"
proof (rule quietI)
  fix w
  from quietD[OF quiet_fetchVariables[of P scope, OF inert ins], of w]
  show "grows P w (snd (renderScope scope w))"
    by (auto simp: renderScope_def Let_def split: prod.splits option.splits)
qed

lemma quiet_renderScopes:
  assumes inert: "\<And>e. inert e \<Longrightarrow> P e" and ins: "\<And>r. inspecting r \<Longrightarrow> P (Sent r)"
  shows "quiet P (renderScopes scopes)"
proof (rule quietI)
  fix w
  show "grows P w (snd (renderScopes scopes w))"
  proof (induction scopes arbitrary: w)
    case Nil
    show ?case by simp
  next
    case (Cons scope rest)
    obtain t w1 where rs: "renderScope scope w = (t, w1)"
      by (cases "renderScope scope w")
    from quietD2[OF quiet_renderScope[of P scope, OF inert ins] rs] have "grows P w w1" .
    moreover have "grows P w1 (snd (renderScopes rest w1))"
      by (rule Cons.IH)
    ultimately have "grows P w (snd (renderScopes rest w1))"
      by (rule grows_trans)
    with rs show ?case
      by (auto split: prod.splits)
  qed
qed

lemma quiet_variablesSection:
  assumes inert: "\<And>e. inert e \<Longrightarrow> P e" and ins: "\<And>r. inspecting r \<Longrightarrow> P (Sent r)"
  shows "quiet P (variablesSection scopes)"
proof (rule quietI)
  fix w
  from quietD[OF quiet_renderScopes[of P scopes, OF inert ins], of w]
  show "grows P w (snd (variablesSection scopes w))"
    by (auto simp: variablesSection_def split: prod.splits)
qed

lemma quiet_getFullContext:
  assumes inert: "\<And>e. inert e \<Longrightarrow> P e" and ins: "\<And>r. inspecting r \<Longrightarrow> P (Sent r)"
  shows "quiet P (getFullContext ds threadID frameID maxFrames)"
proof -
  have tail: "quiet P (\<lambda>w. case variablesSection scopes w of
                 (vars, w') \<Rightarrow> (Inr (g vars) :: error + string, w'))" for scopes g
  proof (rule quietI)
    fix w
    from quietD[OF quiet_variablesSection[of P scopes, OF inert ins], of w]
    show "grows P w (snd (case variablesSection scopes w of
                 (vars, w') \<Rightarrow> (Inr (g vars) :: error + string, w')))"
      by (auto split: prod.splits)
  qed
  show ?thesis
    unfolding getFullContext_def fetchStack_def fetchScopes_def
    by (auto intro!: quiet_andThen quiet_send quiet_awaitStackTrace quiet_awaitScopes
          inert ins tail)
qed

subsection \<open>Sequencing\<close>



lemma andThen_eq_InrD:
  assumes "andThen m f w = (Inr y, w')"
  obtains x w1 where "m w = (Inr x, w1)" and "f x w1 = (Inr y, w')"
  using assms by (auto simp: andThen_def split: prod.splits sum.splits)




subsection \<open>The snapshot and its partial failures\<close>






subsection \<open>The trace of the handlers\<close>

lemma quiet_awaitStopped:
  assumes inert: "\<And>e. inert e \<Longrightarrow> P e" and ins: "\<And>r. inspecting r \<Longrightarrow> P (Sent r)"
  shows "quiet P (awaitStopped ds p)"
proof (rule quietI)
  fix w
  show "grows P w (snd (awaitStopped ds p w))"
  proof (induction ds p w rule: awaitStopped.induct)
    case (1 ds errorPrefix w)
    obtain r w1 where rm: "ReadMessage w = (r, w1)"
      by (cases "ReadMessage w")
    have gfc: "grows P w1 (snd (getFullContext ds t 0 20 w1))" for t
      by (rule quietD[OF quiet_getFullContext[of P, OF inert ins]])
    have "grows P w1 (snd (awaitStopped ds errorPrefix w))"
    proof (cases r)
      case (Inl e)
      with rm show ?thesis
        by (simp add: awaitStopped.simps[of ds errorPrefix w])
    next
      case (Inr msg)
      show ?thesis
      proof (cases "is_response msg")
        case True
        with "1.IH"(1)[OF rm[unfolded Inr, symmetric] refl True] rm Inr show ?thesis
          by (simp add: awaitStopped.simps[of ds errorPrefix w])
      next
        case False
        with "1.IH"(2-)[OF rm[unfolded Inr, symmetric] refl False] rm Inr gfc show ?thesis
          by (cases msg) (simp_all add: awaitStopped.simps[of ds errorPrefix w])
      qed
    qed
    with inert rm show ?case
      by (rule grows_after_read)
  qed
qed

lemma quiet_setInitialBreakpoint:
  assumes inert: "\<And>e. inert e \<Longrightarrow> P e" and cfg: "\<And>r. configuring r \<Longrightarrow> P (Sent r)"
  shows "quiet P (setInitialBreakpoint bp)"
proof -
  have snd: "quiet P (send r)" if "configuring r" for r
    using cfg[OF that] inert by (rule quiet_send)
  show ?thesis
    unfolding setInitialBreakpoint_def
    by (auto intro!: quiet_andThen snd quiet_ReadMessage[of P, OF inert]
          quiet_readAndValidateResponse[of P, OF inert])
qed

lemma quiet_setInitialBreakpoints:
  assumes inert: "\<And>e. inert e \<Longrightarrow> P e" and cfg: "\<And>r. configuring r \<Longrightarrow> P (Sent r)"
  shows "quiet P (setInitialBreakpoints bps)"
  by (induction bps)
     (auto intro!: quiet_andThen quiet_setInitialBreakpoint[of P, OF inert cfg])

lemma quiet_configure:
  assumes inert: "\<And>e. inert e \<Longrightarrow> P e" and cfg: "\<And>r. configuring r \<Longrightarrow> P (Sent r)"
  shows "quiet P (configure params)"
proof -
  have snd: "quiet P (send r)" if "configuring r" for r
    using cfg[OF that] inert by (rule quiet_send)
  show ?thesis
    unfolding configure_def
    by (auto intro!: quiet_andThen snd quiet_readAndValidateResponse[of P, OF inert]
          quiet_setInitialBreakpoints[of P, OF inert cfg])
qed

lemma quiet_launchAndRun:
  assumes inert: "\<And>e. inert e \<Longrightarrow> P e" and cfg: "\<And>r. configuring r \<Longrightarrow> P (Sent r)"
    and ins: "\<And>r. inspecting r \<Longrightarrow> P (Sent r)" and cont: "P (Sent (ContinueRequest 0))"
  shows "quiet P (launchAndRun ds params)"
  unfolding launchAndRun_def
  by (auto intro!: quiet_andThen quiet_send[of P, OF cont inert]
        quiet_configure[of P, OF inert cfg]
        quiet_awaitStoppedOrTerminated[of P, OF inert]
        quiet_getFullContext[of P, OF inert ins])

lemma inert_routine: "inert e \<Longrightarrow> routine e"
  by (cases e) simp_all

lemma inspecting_routine: "inspecting r \<Longrightarrow> routine (Sent r)"
  by (cases r) simp_all

lemma configuring_routine: "configuring r \<Longrightarrow> routine (Sent r)"
  by (cases r) simp_all

lemma quiet_routine_send: "routine (Sent r) \<Longrightarrow> quiet routine (send r)"
  by (rule quiet_send[OF _ inert_routine])

lemmas quiet_routine_ReadMessage = quiet_ReadMessage[of routine, OF inert_routine]
lemmas quiet_routine_readAndValidateResponse =
  quiet_readAndValidateResponse[of routine, OF inert_routine]
lemmas quiet_routine_awaitStopped =
  quiet_awaitStopped[of routine, OF inert_routine inspecting_routine]
lemmas quiet_routine_getFullContext =
  quiet_getFullContext[of routine, OF inert_routine inspecting_routine]

lemma quiet_routine_clearBreakpoints: "quiet routine (clearBreakpoints ds params)"
  unfolding clearBreakpoints_def
  by (auto intro!: quiet_andThen quiet_routine_send quiet_routine_ReadMessage)

lemma quiet_routine_setToBreakpoint: "quiet routine (setToBreakpoint target)"
  unfolding setToBreakpoint_def
  by (auto intro!: quiet_andThen quiet_routine_send quiet_routine_ReadMessage
        split: option.splits)

lemma quiet_routine_continueExecution: "quiet routine (continueExecution ds params)"
  unfolding continueExecution_def
  by (auto intro!: quiet_andThen quiet_routine_send quiet_routine_setToBreakpoint
        quiet_routine_awaitStopped)

lemma quiet_routine_step: "quiet routine (step ds params)"
  unfolding step_def
  by (auto intro!: quiet_andThen quiet_routine_send quiet_routine_awaitStopped)

lemma quiet_routine_pauseExecution: "quiet routine (pauseExecution ds threadID)"
  unfolding pauseExecution_def
  by (auto intro!: quiet_andThen quiet_routine_send quiet_routine_readAndValidateResponse)

lemma quiet_routine_evaluateExpression: "quiet routine (evaluateExpression ds params)"
  unfolding evaluateExpression_def
  by (auto intro!: quiet_andThen quiet_routine_send
        quiet_awaitEvaluate[of routine, OF inert_routine])

lemma quiet_routine_setVariable: "quiet routine (setVariable ds params)"
  unfolding setVariable_def
  by (auto intro!: quiet_andThen quiet_routine_send quiet_routine_ReadMessage)

lemma quiet_routine_disassembleCode: "quiet routine (disassembleCode ds params)"
  unfolding disassembleCode_def
  by (auto intro!: quiet_andThen quiet_routine_send quiet_routine_ReadMessage)

lemma quiet_routine_restartDebugger: "quiet routine (restartDebugger ds args)"
  unfolding restartDebugger_def
  by (auto intro!: quiet_andThen quiet_routine_send quiet_routine_readAndValidateResponse)

lemma quiet_if: "quiet P a \<Longrightarrow> quiet P b \<Longrightarrow> quiet P (if c then a else b)"
  by simp

lemma quiet_routine_info: "quiet routine (info ds ty)"
  unfolding info_def
  by (auto intro!: quiet_andThen quiet_routine_send quiet_routine_ReadMessage quiet_if
        split: message.splits)

lemma quiet_routine_context_tool: "quiet routine (context_tool ds params)"
  unfolding context_tool_def
  by (rule quiet_routine_getFullContext)

lemma quiet_routine_breakpoint: "quiet routine (breakpoint ds params)"
  unfolding breakpoint_def
  by (auto intro!: quiet_andThen quiet_routine_send quiet_routine_ReadMessage
        quiet_routine_readAndValidateResponse split: message.splits list.splits)

lemma grows_emit_after: "P e \<Longrightarrow> grows P w w1 \<Longrightarrow> grows P w (emit e w1)"
  by (auto simp: grows_iff emit_def)

lemma grows_same_trace: "trace w2 = trace w1 \<Longrightarrow> grows P w w1 \<Longrightarrow> grows P w w2"
  by (simp add: grows_iff)

lemma nextSpawn_trace: "nextSpawn w = (out, w1) \<Longrightarrow> trace w1 = trace w"
  by (auto simp: nextSpawn_def split: list.splits)

lemma grows_debug:
  assumes inert: "\<And>e. inert e \<Longrightarrow> P e" and cfg: "\<And>r. configuring r \<Longrightarrow> P (Sent r)"
    and ins: "\<And>r. inspecting r \<Longrightarrow> P (Sent r)" and cont: "P (Sent (ContinueRequest 0))"
    and init: "P (Sent InitializeRequest)"
    and spawned: "\<And>p. P (Spawned p)" and connected: "\<And>c a. P (Connected c a)"
  shows "grows P w (snd (snd (debug ds params w)))"
proof (cases "validate params")
  case (Some err)
  then show ?thesis
    by (simp add: debug_def)
next
  case None
  obtain out w1 where ns: "nextSpawn w = (out, w1)"
    by (cases "nextSpawn w")
  have g1: "grows P w w1"
    by (rule grows_same_trace[OF nextSpawn_trace[OF ns] grows_refl])
  show ?thesis
  proof (cases out)
    case (PipeFails e)
    with None ns g1 show ?thesis
      by (simp add: debug_def Let_def newDAPClient_def)
  next
    case (StartFails e)
    with None ns g1 show ?thesis
      by (simp add: debug_def Let_def newDAPClient_def)
  next
    case (Starts lines)
    let ?w2 = "emit (Spawned (fresh w1)) (w1\<lparr>fresh := Suc (fresh w1)\<rparr>)"
    have g2: "grows P w ?w2"
      by (rule grows_emit_after[of P, OF spawned]) (rule grows_same_trace[OF _ g1], simp)
    show ?thesis
    proof (cases "waitListening lines")
      case (Some e)
      with None ns Starts g2 show ?thesis
        by (simp add: debug_def Let_def newDAPClient_def)
    next
      case wl: None
      let ?w3 = "emit (Connected (fresh ?w2) (''localhost'' @ listenPort (Port params)))
                   (?w2\<lparr>fresh := Suc (fresh ?w2)\<rparr>)"
      have g3: "grows P w ?w3"
        by (rule grows_emit_after[of P, OF connected]) (rule grows_same_trace[OF _ g2], simp)
      obtain r w4 where hs: "andThen (send InitializeRequest) (\<lambda>_. ReadMessage) ?w3 = (r, w4)"
        by (cases "andThen (send InitializeRequest) (\<lambda>_. ReadMessage) ?w3")
      have "quiet P (andThen (send InitializeRequest) (\<lambda>_. ReadMessage))"
        by (intro quiet_andThen quiet_send[of P, OF init inert] quiet_ReadMessage[of P, OF inert])
      from quietD2[OF this hs] g3 have g4: "grows P w w4"
        by (blast intro: grows_trans)
      show ?thesis
      proof (cases r)
        case (Inl e)
        with None ns Starts wl hs g4 show ?thesis
          by (simp add: debug_def Let_def newDAPClient_def)
      next
        case (Inr m)
        have "grows P w4 (snd (launchAndRun dsx params w4))" for dsx
          by (rule quietD[OF quiet_launchAndRun[of P, OF inert cfg ins cont]])
        with g4 have "grows P w (snd (launchAndRun dsx params w4))" for dsx
          by (rule grows_trans)
        with None ns Starts wl hs Inr show ?thesis
          by (simp add: debug_def Let_def newDAPClient_def)
      qed
    qed
  qed
qed

lemma grows_closeClient:
  assumes inert: "\<And>e. inert e \<Longrightarrow> P e"
    and "P (Sent TerminateRequest)" and "P (Sent (DisconnectRequest True))" and "P (Closed c)"
  shows "grows P w (closeClient c w)"
proof -
  obtain r1 w1 where s1: "send TerminateRequest w = (r1, w1)"
    by (cases "send TerminateRequest w")
  from quietD2[OF quiet_send[of P, OF assms(2) inert] s1] have g1: "grows P w w1" .
  let ?w1 = "case r1 of Inl err \<Rightarrow> logPrintf (''error terminating debuggee: '' @ err) w1 | Inr _ \<Rightarrow> w1"
  have g1': "grows P w ?w1"
    using g1 by (auto split: sum.splits simp: logPrintf_def intro!: grows_emit_after inert)
  obtain r2 w2 where s2: "send (DisconnectRequest True) ?w1 = (r2, w2)"
    by (cases "send (DisconnectRequest True) ?w1")
  from quietD2[OF quiet_send[of P, OF assms(3) inert] s2] g1' have g2: "grows P w w2"
    by (blast intro: grows_trans)
  let ?w2 = "case r2 of Inl err \<Rightarrow> logPrintf (''error disconnecting: '' @ err) w2 | Inr _ \<Rightarrow> w2"
  have g2': "grows P w ?w2"
    using g2 by (auto split: sum.splits simp: logPrintf_def intro!: grows_emit_after inert)
  have "closeClient c w = emit (Closed c) ?w2"
    using s1 s2 by (simp add: closeClient_def Let_def split: sum.splits)
  with g2' assms(4) show ?thesis
    by (simp add: grows_emit_after)
qed

lemma grows_killProcess:
  assumes inert: "\<And>e. inert e \<Longrightarrow> P e"
    and "P (Killed pid)" and "\<And>e. P (KillFailed pid e)" and "P (Waited pid)"
  shows "grows P w (killProcess pid w)"
proof -
  have "P (Logged s)" for s
    by (rule inert) simp
  with assms(2-) show ?thesis
    by (auto simp: killProcess_def Kill_def Let_def logPrintf_def grows_iff emit_def
          split: list.splits option.splits)
qed

lemma grows_stop:
  assumes inert: "\<And>e. inert e \<Longrightarrow> P e"
    and "P (Sent TerminateRequest)" and "P (Sent (DisconnectRequest True))"
    and "\<And>c. P (Closed c)"
    and "\<And>p. P (Killed p)" and "\<And>p e. P (KillFailed p e)" and "\<And>p. P (Waited p)"
  shows "grows P w (snd (snd (stop ds w)))"
proof -
  have cc: "grows P w (closeClient c w)" for c w
    by (rule grows_closeClient[of P, OF inert assms(2,3,4)])
  have kp: "grows P w (killProcess p w)" for p w
    by (rule grows_killProcess[of P, OF inert assms(5,6,7)])
  show ?thesis
    by (auto simp: stop_def Let_def split: option.splits prod.splits
          intro: cc kp grows_trans[OF cc kp])
qed

subsection \<open>The requests written\<close>

lemma send_InrD: "send r w = (Inr u, w1) \<Longrightarrow> trace w1 = trace w @ [Sent r]"
  by (auto simp: send_def emit_def split: list.splits option.splits)

lemma ReadMessage_trace: "ReadMessage w = (Inr m, w1) \<Longrightarrow> trace w1 = trace w @ [Received m]"
  by (auto simp: ReadMessage_def emit_def split: list.splits sum.splits)

lemma newEvents_append: "trace w' = trace w @ es \<Longrightarrow> newEvents w w' = es"
  by (simp add: newEvents_def)

lemma requestsSent_append: "requestsSent (a @ b) = requestsSent a @ requestsSent b"
  by (induction a rule: requestsSent.induct) simp_all

lemma requestsSent_notSent: "list_all notSent es \<Longrightarrow> requestsSent es = []"
  by (induction es rule: requestsSent.induct) simp_all

lemma inert_notSent: "inert e \<Longrightarrow> notSent e"
  by (cases e) simp_all

lemma readAndValidateResponse_sends_nothing:
  assumes "readAndValidateResponse p w = (r, w1)"
  obtains es where "trace w1 = trace w @ es" and "requestsSent es = []"
proof -
  from quietD2[OF quiet_readAndValidateResponse[of notSent, OF inert_notSent] assms]
  obtain es where "trace w1 = trace w @ es" and "list_all notSent es"
    by (auto simp: grows_iff)
  then show ?thesis
    using that by (simp add: requestsSent_notSent)
qed

lemma setInitialBreakpoint_requests:
  assumes "setInitialBreakpoint bp w = (Inr u, w1)"
  shows "\<exists>es. trace w1 = trace w @ es \<and> requestsSent es = requestOf bp"
proof (cases "spec_Function bp \<noteq> []")
  case True
  with assms obtain v wa where s: "send (SetFunctionBreakpointsRequest [spec_Function bp]) w = (Inr v, wa)"
    and rv: "readAndValidateResponse ''unable to set function breakpoint'' wa = (Inr u, w1)"
    by (auto simp: setInitialBreakpoint_def elim: andThen_eq_InrD)
  from rv obtain es where "trace w1 = trace wa @ es" and "requestsSent es = []"
    by (rule readAndValidateResponse_sends_nothing)
  with send_InrD[OF s] True
  have "trace w1 = trace w @ (Sent (SetFunctionBreakpointsRequest [spec_Function bp]) # es) \<and>
        requestsSent (Sent (SetFunctionBreakpointsRequest [spec_Function bp]) # es) = requestOf bp"
    by (simp add: requestOf_def)
  then show ?thesis by blast
next
  case False
  show ?thesis
  proof (cases "spec_File bp \<noteq> [] \<and> spec_Line bp > 0")
    case True
    with False assms obtain v wa where s: "send (SetBreakpointsRequest (spec_File bp) [spec_Line bp]) w = (Inr v, wa)"
      and rest: "andThen ReadMessage (\<lambda>_. succeed ()) wa = (Inr u, w1)"
      by (auto simp: setInitialBreakpoint_def elim: andThen_eq_InrD)
    from rest obtain m where rm: "ReadMessage wa = (Inr m, w1)"
      by (auto simp: succeed_def elim!: andThen_eq_InrD)
    from send_InrD[OF s] ReadMessage_trace[OF rm] False True
    have "trace w1 = trace w @ [Sent (SetBreakpointsRequest (spec_File bp) [spec_Line bp]), Received m] \<and>
          requestsSent [Sent (SetBreakpointsRequest (spec_File bp) [spec_Line bp]), Received m] = requestOf bp"
      by (simp add: requestOf_def)
    then show ?thesis by blast
  next
    case nofile: False
    with False assms have "w1 = w"
      by (auto simp: setInitialBreakpoint_def succeed_def)
    with False nofile show ?thesis
      by (auto simp: requestOf_def)
  qed
qed

lemma setInitialBreakpoints_requests:
  "setInitialBreakpoints bps w = (Inr u, w') \<Longrightarrow>
   \<exists>es. trace w' = trace w @ es \<and> requestsSent es = concat (map requestOf bps)"
proof (induction bps arbitrary: w)
  case Nil
  then show ?case by (simp add: succeed_def)
next
  case (Cons bp rest)
  from Cons.prems obtain v w1 where one: "setInitialBreakpoint bp w = (Inr v, w1)"
    and more: "setInitialBreakpoints rest w1 = (Inr u, w')"
    by (auto elim: andThen_eq_InrD)
  from setInitialBreakpoint_requests[OF one] obtain es1
    where e1: "trace w1 = trace w @ es1" "requestsSent es1 = requestOf bp"
    by blast
  from Cons.IH[OF more] obtain es2
    where e2: "trace w' = trace w1 @ es2" "requestsSent es2 = concat (map requestOf rest)"
    by blast
  from e1 e2 have "trace w' = trace w @ (es1 @ es2) \<and>
      requestsSent (es1 @ es2) = concat (map requestOf (bp # rest))"
    by (simp add: requestsSent_append)
  then show ?case by blast
qed

lemma breakpoint_tool_request:
  assumes "client ds \<noteq> None" and "bpt_Function params = []"
    and "bpt_File params \<noteq> []" and "bpt_Line params \<noteq> 0"
  shows "requestsSent (newEvents w (snd (breakpoint ds params w))) =
           (case fst (send (SetBreakpointsRequest (bpt_File params) [bpt_Line params]) w) of
              Inl _ \<Rightarrow> []
            | Inr _ \<Rightarrow> [SetBreakpointsRequest (bpt_File params) [bpt_Line params]])"
proof -
  from assms(1) obtain c where "client ds = Some c"
    by blast
  with assms(2-) show ?thesis
    by (auto simp: breakpoint_def andThen_def send_def ReadMessage_def emit_def newEvents_def
          failWith_def succeed_def
          split: list.splits option.splits sum.splits message.splits)
qed

subsection \<open>The file tables\<close>

lemma fileTable_append: "fileTable f (tr @ es) = foldl (fileStep f) (fileTable f tr) es"
  by (simp add: fileTable_def)

lemma foldl_fileStep_keeps: "list_all keepsFileTables es \<Longrightarrow> foldl (fileStep f) t es = t"
proof (induction es arbitrary: t)
  case Nil
  show ?case by simp
next
  case (Cons e es)
  from Cons.prems have "fileStep f t e = t"
    by (cases "(f, t, e)" rule: fileStep.cases) simp_all
  with Cons show ?case by simp
qed

lemma grows_keeps_fileTable:
  "grows keepsFileTables w w' \<Longrightarrow> fileTable f (trace w') = fileTable f (trace w)"
  by (auto simp: grows_iff fileTable_append foldl_fileStep_keeps)

lemma inert_keepsFileTables: "inert e \<Longrightarrow> keepsFileTables e"
  by (cases e) simp_all

lemma inspecting_keepsFileTables: "inspecting r \<Longrightarrow> keepsFileTables (Sent r)"
  by (cases r) simp_all

lemma setInitialBreakpoint_fileTable:
  assumes "setInitialBreakpoint bp w = (Inr u, w1)"
  shows "fileTable f (trace w1) =
           (if spec_Function bp = [] \<and> spec_File bp \<noteq> [] \<and> 0 < spec_Line bp \<and> spec_File bp = f
            then [spec_Line bp] else fileTable f (trace w))"
proof (cases "spec_Function bp \<noteq> []")
  case True
  have "quiet keepsFileTables (setInitialBreakpoint bp)"
    using True unfolding setInitialBreakpoint_def
    by (auto intro!: quiet_andThen quiet_send[of keepsFileTables, OF _ inert_keepsFileTables]
          quiet_readAndValidateResponse[of keepsFileTables, OF inert_keepsFileTables])
  from grows_keeps_fileTable[OF quietD2[OF this assms]] True show ?thesis
    by simp
next
  case False
  show ?thesis
  proof (cases "spec_File bp \<noteq> [] \<and> spec_Line bp > 0")
    case True
    with False assms obtain v wa where s: "send (SetBreakpointsRequest (spec_File bp) [spec_Line bp]) w = (Inr v, wa)"
      and rest: "andThen ReadMessage (\<lambda>_. succeed ()) wa = (Inr u, w1)"
      by (auto simp: setInitialBreakpoint_def elim: andThen_eq_InrD)
    from rest obtain m where rm: "ReadMessage wa = (Inr m, w1)"
      by (auto simp: succeed_def elim!: andThen_eq_InrD)
    from send_InrD[OF s] ReadMessage_trace[OF rm]
    have "trace w1 = trace w @ [Sent (SetBreakpointsRequest (spec_File bp) [spec_Line bp]), Received m]"
      by simp
    with False True show ?thesis
      by (simp add: fileTable_append)
  next
    case nofile: False
    with False assms have "w1 = w"
      by (auto simp: setInitialBreakpoint_def succeed_def)
    with False nofile show ?thesis
      by auto
  qed
qed

lemma setInitialBreakpoints_fileTable:
  "setInitialBreakpoints bps w = (Inr u, w') \<Longrightarrow>
   fileTable f (trace w') =
     (case fileBreakpointsOf f bps of
        [] \<Rightarrow> fileTable f (trace w)
      | bp # rest \<Rightarrow> [spec_Line (last (bp # rest))])"
proof (induction bps arbitrary: w)
  case Nil
  then show ?case
    by (simp add: succeed_def fileBreakpointsOf_def)
next
  case (Cons bp rest)
  from Cons.prems obtain v w1 where one: "setInitialBreakpoint bp w = (Inr v, w1)"
    and more: "setInitialBreakpoints rest w1 = (Inr u, w')"
    by (auto elim: andThen_eq_InrD)
  from Cons.IH[OF more] setInitialBreakpoint_fileTable[OF one, of f] show ?case
    by (auto simp: fileBreakpointsOf_def split: list.splits)
qed

lemma lastArmed_same_file:
  assumes "bps \<noteq> []"
    and "\<forall>bp\<in>set bps. spec_Function bp = [] \<and> spec_File bp = f \<and> 0 < spec_Line bp"
    and "f \<noteq> []"
  shows "lastArmed f bps = [spec_Line (last bps)]"
proof -
  from assms have "fileBreakpointsOf f bps = bps"
    by (auto simp: fileBreakpointsOf_def filter_id_conv)
  with assms(1) show ?thesis
    by (cases bps) (simp_all add: lastArmed_def)
qed

subsection \<open>The phases of debug\<close>

lemma debug_InrD:
  assumes "debug ds params w = (ds', Inr body, w')"
  obtains w4 p c a m where "launchAndRun ds' params w4 = (Inr body, w')"
    and "trace w4 = trace w @ [Spawned p, Connected c a, Sent InitializeRequest, Received m]"
proof -
  from assms have v: "validate params = None"
    by (auto simp: debug_def split: option.splits)
  obtain out w1 where ns: "nextSpawn w = (out, w1)"
    by (cases "nextSpawn w")
  from assms v ns obtain lines where out: "out = Starts lines"
    by (cases out) (auto simp: debug_def Let_def newDAPClient_def)
  from assms v ns out have wl: "waitListening lines = None"
    by (auto simp: debug_def Let_def newDAPClient_def split: option.splits)
  let ?w2 = "emit (Spawned (fresh w1)) (w1\<lparr>fresh := Suc (fresh w1)\<rparr>)"
  let ?w3 = "emit (Connected (fresh ?w2) (''localhost'' @ listenPort (Port params)))
               (?w2\<lparr>fresh := Suc (fresh ?w2)\<rparr>)"
  obtain r w4 where hs: "andThen (send InitializeRequest) (\<lambda>_. ReadMessage) ?w3 = (r, w4)"
    by (cases "andThen (send InitializeRequest) (\<lambda>_. ReadMessage) ?w3")
  from assms v ns out wl hs obtain m where r: "r = Inr m"
    by (cases r) (auto simp: debug_def Let_def newDAPClient_def)
  from hs r obtain u wa where s: "send InitializeRequest ?w3 = (Inr u, wa)"
    and rm: "ReadMessage wa = (Inr m, w4)"
    by (auto elim: andThen_eq_InrD)
  have t3: "trace ?w3 = trace w @ [Spawned (fresh w1),
              Connected (fresh ?w2) (''localhost'' @ listenPort (Port params))]"
    using nextSpawn_trace[OF ns] by (simp add: emit_def)
  from send_InrD[OF s] ReadMessage_trace[OF rm] t3
  have t4: "trace w4 = trace w @ [Spawned (fresh w1),
              Connected (fresh ?w2) (''localhost'' @ listenPort (Port params)),
              Sent InitializeRequest, Received m]"
    by simp
  from assms v ns out wl hs r have "launchAndRun ds' params w4 = (Inr body, w')"
    by (auto simp: debug_def Let_def newDAPClient_def)
  with t4 show ?thesis
    by (rule that[rotated])
qed

lemma configuring_keepsFileTables_after:
  "quiet keepsFileTables
     (andThen (send ConfigurationDoneRequest)
        (\<lambda>_. readAndValidateResponse ''unable to complete configuration''))"
  by (intro quiet_andThen quiet_send quiet_readAndValidateResponse)
     (simp_all add: inert_keepsFileTables)

lemma quiet_keepsFileTables_getFullContext:
  "quiet keepsFileTables (getFullContext ds a b c)"
  by (rule quiet_getFullContext) (simp_all add: inert_keepsFileTables inspecting_keepsFileTables)

lemma debug_fileTable:
  assumes dbg: "debug ds params w = (ds', Inr body, w')"
  shows "fileTable f (trace w') = lastArmed f (Breakpoints params)"
proof -
  from dbg obtain w4 p c a m where lr: "launchAndRun ds' params w4 = (Inr body, w')"
    and t4: "trace w4 = trace w @ [Spawned p, Connected c a, Sent InitializeRequest, Received m]"
    by (rule debug_InrD)
  from t4 have f4: "fileTable f (trace w4) = []"
    by (simp add: fileTable_append)
  from lr obtain u w5 where cf: "configure params w4 = (Inr u, w5)"
    and tail: "(if Breakpoints params \<noteq> [] \<and> \<not> StopOnEntry params then
       andThen (send (ContinueRequest 0)) (\<lambda>_.
       andThen awaitStoppedOrTerminated (\<lambda>_.
       getFullContext ds' 1 0 20))
     else
       succeed (''Debug session started for '' @ Path params @
                ''. Use 'breakpoint' to set breakpoints and 'continue' to run.'')) w5
       = (Inr body, w')"
    unfolding launchAndRun_def by (auto elim: andThen_eq_InrD)
  from cf obtain v1 wa where launch: "(if Mode params = ''source'' then
          send (LaunchRequest ''debug'' (Path params)
                  (StopOnEntry params \<or> Breakpoints params = []) (Args params))
        else if Mode params = ''binary'' then
          send (LaunchRequest ''exec'' (Path params)
                  (StopOnEntry params \<or> Breakpoints params = []) (Args params))
        else if Mode params = ''attach'' then
          send (AttachRequest ''local'' (ProcessID params))
        else succeed ()) w4 = (Inr v1, wa)"
    and r1: "andThen (readAndValidateResponse ''unable to start debug session'') (\<lambda>_.
     andThen (setInitialBreakpoints (Breakpoints params)) (\<lambda>_.
     andThen (send ConfigurationDoneRequest) (\<lambda>_.
     readAndValidateResponse ''unable to complete configuration''))) wa = (Inr u, w5)"
    unfolding configure_def by (rule andThen_eq_InrD)
  from r1 obtain v2 wb where rv: "readAndValidateResponse ''unable to start debug session'' wa = (Inr v2, wb)"
    and r2: "andThen (setInitialBreakpoints (Breakpoints params)) (\<lambda>_.
     andThen (send ConfigurationDoneRequest) (\<lambda>_.
     readAndValidateResponse ''unable to complete configuration'')) wb = (Inr u, w5)"
    by (rule andThen_eq_InrD)
  from r2 obtain v3 wc where bps: "setInitialBreakpoints (Breakpoints params) wb = (Inr v3, wc)"
    and r3: "andThen (send ConfigurationDoneRequest) (\<lambda>_.
     readAndValidateResponse ''unable to complete configuration'') wc = (Inr u, w5)"
    by (rule andThen_eq_InrD)
  have "quiet keepsFileTables (if Mode params = ''source'' then
          send (LaunchRequest ''debug'' (Path params)
                  (StopOnEntry params \<or> Breakpoints params = []) (Args params))
        else if Mode params = ''binary'' then
          send (LaunchRequest ''exec'' (Path params)
                  (StopOnEntry params \<or> Breakpoints params = []) (Args params))
        else if Mode params = ''attach'' then
          send (AttachRequest ''local'' (ProcessID params))
        else succeed ())"
    by (intro quiet_if quiet_send quiet_succeed) (simp_all add: inert_keepsFileTables)
  from grows_keeps_fileTable[OF quietD2[OF this launch]] f4
  have fa: "fileTable f (trace wa) = []"
    by simp
  have "quiet keepsFileTables (readAndValidateResponse ''unable to start debug session'')"
    by (rule quiet_readAndValidateResponse) (rule inert_keepsFileTables)
  from grows_keeps_fileTable[OF quietD2[OF this rv]] fa
  have fb: "fileTable f (trace wb) = []"
    by simp
  from setInitialBreakpoints_fileTable[OF bps, of f] fb
  have fc: "fileTable f (trace wc) = lastArmed f (Breakpoints params)"
    by (simp add: lastArmed_def split: list.splits)
  from quietD2[OF configuring_keepsFileTables_after r3]
  have f5: "fileTable f (trace w5) = fileTable f (trace wc)"
    by (rule grows_keeps_fileTable)
  have "quiet keepsFileTables (if Breakpoints params \<noteq> [] \<and> \<not> StopOnEntry params then
       andThen (send (ContinueRequest 0)) (\<lambda>_.
       andThen awaitStoppedOrTerminated (\<lambda>_.
       getFullContext ds' 1 0 20))
     else
       succeed (''Debug session started for '' @ Path params @
                ''. Use 'breakpoint' to set breakpoints and 'continue' to run.''))"
    by (intro quiet_if quiet_andThen quiet_send quiet_awaitStoppedOrTerminated
          quiet_keepsFileTables_getFullContext quiet_succeed)
       (simp_all add: inert_keepsFileTables)
  from quietD2[OF this tail] have "fileTable f (trace w') = fileTable f (trace w5)"
    by (rule grows_keeps_fileTable)
  with f5 fc show ?thesis
    by simp
qed

subsection \<open>Every tool call\<close>

lemma grows_routine_callTool: "grows routine w (snd (snd (callTool ds call w)))"
proof (cases call)
  case (Debug params)
  have "grows routine w (snd (snd (debug ds params w)))"
    by (rule grows_debug)
       (simp_all add: inert_routine configuring_routine inspecting_routine)
  with Debug show ?thesis by simp
next
  case Stop
  have "grows routine w (snd (snd (stop ds w)))"
    by (rule grows_stop) (simp_all add: inert_routine)
  with Stop show ?thesis by simp
qed (simp_all add: quietD quiet_routine_restartDebugger quiet_routine_breakpoint
       quiet_routine_clearBreakpoints quiet_routine_continueExecution quiet_routine_step
       quiet_routine_pauseExecution quiet_routine_context_tool
       quiet_routine_evaluateExpression quiet_routine_setVariable quiet_routine_info
       quiet_routine_disassembleCode)

lemma grows_routine_callTools: "grows routine w (snd (snd (callTools ds calls w)))"
proof (induction calls arbitrary: ds w)
  case Nil
  show ?case by simp
next
  case (Cons call calls)
  obtain ds1 r w1 where c: "callTool ds call w = (ds1, r, w1)"
    by (cases "callTool ds call w")
  from grows_routine_callTool[of w ds call] c have "grows routine w w1"
    by simp
  moreover have "grows routine w1 (snd (snd (callTools ds1 calls w1)))"
    by (rule Cons.IH)
  ultimately have "grows routine w (snd (snd (callTools ds1 calls w1)))"
    by (rule grows_trans)
  with c show ?case
    by (auto split: prod.splits)
qed

subsection \<open>Partial failures of the snapshot\<close>





lemma ReadMessage_cases:
  obtains (closed) "inbox w = []" "ReadMessage w = (Inl EOF, emit (ReadFailed EOF) w)"
  | (failed) e rest where "inbox w = Inl e # rest"
      "ReadMessage w = (Inl e, emit (ReadFailed e) (w\<lparr>inbox := rest\<rparr>))"
  | (message) m rest where "inbox w = Inr m # rest"
      "ReadMessage w = (Inr m, emit (Received m) (w\<lparr>inbox := rest\<rparr>))"
  by (cases "inbox w"; simp add: ReadMessage_def split: sum.splits) (metis sumE)

lemma awaitScopes_InlD:
  "awaitScopes w = (Inl e, w') \<Longrightarrow>
   \<exists>evs. list_all is_event evs \<and>
     ((inbox w = map Inr evs \<and> e = EOF) \<or>
      (\<exists>rest. inbox w = map Inr evs @ Inl e # rest) \<or>
      (\<exists>m rest. inbox w = map Inr evs @ Inr m # rest \<and> \<not> is_event m \<and>
         (\<forall>ok msg sc. m \<noteq> ScopesResponse ok msg sc) \<and>
         e = ''unexpected response type: '' @ typeName m))"
proof (induction w rule: awaitScopes.induct)
  case (1 w)
  show ?case
  proof (cases w rule: ReadMessage_cases)
    case closed
    with "1.prems" have "inbox w = map Inr [] \<and> e = EOF \<and> list_all is_event []"
      by (simp add: awaitScopes.simps[of w])
    then show ?thesis by blast
  next
    case (failed e' rest)
    with "1.prems" have "inbox w = map Inr [] @ Inl e # rest \<and> list_all is_event []"
      by (simp add: awaitScopes.simps[of w])
    then show ?thesis by blast
  next
    case (message m rest)
    show ?thesis
    proof (cases "is_event m")
      case True
      let ?w1 = "emit (Received m) (w\<lparr>inbox := rest\<rparr>)"
      from "1.prems" message True have rec: "awaitScopes ?w1 = (Inl e, w')"
        by (cases m) (simp_all add: awaitScopes.simps[of w])
      have "\<exists>evs. list_all is_event evs \<and>
         ((inbox ?w1 = map Inr evs \<and> e = EOF) \<or>
          (\<exists>rest. inbox ?w1 = map Inr evs @ Inl e # rest) \<or>
          (\<exists>m rest. inbox ?w1 = map Inr evs @ Inr m # rest \<and> \<not> is_event m \<and>
             (\<forall>ok msg sc. m \<noteq> ScopesResponse ok msg sc) \<and>
             e = ''unexpected response type: '' @ typeName m))"
        using "1.IH"[OF message(2)[symmetric] refl] True rec by (cases m) simp_all
      then obtain evs where evs: "list_all is_event evs"
        and alt: "(inbox ?w1 = map Inr evs \<and> e = EOF) \<or>
          (\<exists>rest. inbox ?w1 = map Inr evs @ Inl e # rest) \<or>
          (\<exists>m rest. inbox ?w1 = map Inr evs @ Inr m # rest \<and> \<not> is_event m \<and>
             (\<forall>ok msg sc. m \<noteq> ScopesResponse ok msg sc) \<and>
             e = ''unexpected response type: '' @ typeName m)"
        by blast
      have ib: "inbox ?w1 = rest"
        by (simp add: emit_def)
      from evs True have "list_all is_event (m # evs)"
        by simp
      moreover from alt ib message(1) have
        "(inbox w = map Inr (m # evs) \<and> e = EOF) \<or>
          (\<exists>rest. inbox w = map Inr (m # evs) @ Inl e # rest) \<or>
          (\<exists>m' rest. inbox w = map Inr (m # evs) @ Inr m' # rest \<and> \<not> is_event m' \<and>
             (\<forall>ok msg sc. m' \<noteq> ScopesResponse ok msg sc) \<and>
             e = ''unexpected response type: '' @ typeName m')"
        by auto
      ultimately show ?thesis by blast
    next
      case False
      with "1.prems" message have "(\<forall>ok msg sc. m \<noteq> ScopesResponse ok msg sc) \<and>
             e = ''unexpected response type: '' @ typeName m"
        by (cases m) (auto simp: awaitScopes.simps[of w] split: if_splits)
      with message(1) False have "list_all is_event [] \<and>
        (\<exists>m' rest. inbox w = map Inr [] @ Inr m' # rest \<and> \<not> is_event m' \<and>
             (\<forall>ok msg sc. m' \<noteq> ScopesResponse ok msg sc) \<and>
             e = ''unexpected response type: '' @ typeName m')"
        by simp
      then show ?thesis by blast
    qed
  qed
qed

lemma fetchVariables_None_iff:
  "fst (fetchVariables scope w) = None \<longleftrightarrow>
     isl (fst (send (VariablesRequest (scope_VariablesReference scope)) w)) \<or>
     (case inbox w of
        [] \<Rightarrow> True
      | Inl e # rest \<Rightarrow> True
      | Inr m # rest \<Rightarrow> (\<forall>msg vars. m \<noteq> VariablesResponse True msg vars))"
  by (auto simp: fetchVariables_def send_def ReadMessage_def emit_def logPrintf_def
        split: list.splits option.splits sum.splits message.splits)
















subsection \<open>One line per set-breakpoints request\<close>

text \<open>
  C10. In every run of the server (any sequence of tool calls, from any session and
  world) each set-breakpoints request written carries at most one line. The breakpoint
  tool, given a file and a line and no function, writes the one request holding that line
  (or nothing, when the write fails). The loop of \<open>debug\<close> over the initial breakpoints,
  when it completes, has written one request per breakpoint, holding that breakpoint
  alone. So when \<open>debug\<close> returns successfully, whatever the initial breakpoints were (of
  one file or several, by line or by function), the adapter's table for any file holds
  the line of the last breakpoint supplied for that file and no other line, and nothing
  for a file without one; in particular, from breakpoints that all name the same file,
  the line of the last one only.
\<close>

theorem set_breakpoints_one_line_per_request:
  "grows routine w (snd (snd (callTools ds calls w))) \<and>
   (client ds \<noteq> None \<and> bpt_Function tparams = [] \<and> bpt_File tparams \<noteq> [] \<and>
    bpt_Line tparams \<noteq> 0 \<longrightarrow>
      requestsSent (newEvents w (snd (breakpoint ds tparams w))) =
        (case fst (send (SetBreakpointsRequest (bpt_File tparams) [bpt_Line tparams]) w) of
           Inl _ \<Rightarrow> []
         | Inr _ \<Rightarrow> [SetBreakpointsRequest (bpt_File tparams) [bpt_Line tparams]])) \<and>
   (\<forall>u w'. setInitialBreakpoints bps w = (Inr u, w') \<longrightarrow>
      requestsSent (newEvents w w') = concat (map requestOf bps)) \<and>
   (\<forall>ds' body w' f.
      debug ds params w = (ds', Inr body, w') \<longrightarrow>
      fileTable f (trace w') = lastArmed f (Breakpoints params)) \<and>
   (\<forall>ds' body w'.
      debug ds params w = (ds', Inr body, w') \<and> Breakpoints params \<noteq> [] \<and> file \<noteq> [] \<and>
      (\<forall>bp\<in>set (Breakpoints params).
         spec_Function bp = [] \<and> spec_File bp = file \<and> 0 < spec_Line bp) \<longrightarrow>
      fileTable file (trace w') = [spec_Line (last (Breakpoints params))])"
proof (intro conjI allI impI)
  show "grows routine w (snd (snd (callTools ds calls w)))"
    by (rule grows_routine_callTools)
next
  assume "client ds \<noteq> None \<and> bpt_Function tparams = [] \<and> bpt_File tparams \<noteq> [] \<and>
    bpt_Line tparams \<noteq> 0"
  then show "requestsSent (newEvents w (snd (breakpoint ds tparams w))) =
        (case fst (send (SetBreakpointsRequest (bpt_File tparams) [bpt_Line tparams]) w) of
           Inl _ \<Rightarrow> []
         | Inr _ \<Rightarrow> [SetBreakpointsRequest (bpt_File tparams) [bpt_Line tparams]])"
    by (intro breakpoint_tool_request) simp_all
next
  fix u w'
  assume "setInitialBreakpoints bps w = (Inr u, w')"
  from setInitialBreakpoints_requests[OF this]
  show "requestsSent (newEvents w w') = concat (map requestOf bps)"
    by (auto simp: newEvents_append)
next
  fix ds' body w' f
  assume "debug ds params w = (ds', Inr body, w')"
  then show "fileTable f (trace w') = lastArmed f (Breakpoints params)"
    by (rule debug_fileTable)
next
  fix ds' body w'
  assume a: "debug ds params w = (ds', Inr body, w') \<and> Breakpoints params \<noteq> [] \<and> file \<noteq> [] \<and>
      (\<forall>bp\<in>set (Breakpoints params).
         spec_Function bp = [] \<and> spec_File bp = file \<and> 0 < spec_Line bp)"
  then have "fileTable file (trace w') = lastArmed file (Breakpoints params)"
    by (blast intro: debug_fileTable)
  moreover from a have "lastArmed file (Breakpoints params) = [spec_Line (last (Breakpoints params))]"
    by (intro lastArmed_same_file) blast+
  ultimately show "fileTable file (trace w') = [spec_Line (last (Breakpoints params))]"
    by simp
qed

text \<open>
  The theorem at work: \<open>debug\<close> with breakpoints at line 3 of one file, line 5 of
  another, on a function, and at line 9 of the first file returns a snapshot; line 9
  alone is armed in the first file and line 5 in the second. With breakpoints at lines 3
  and 9 of one file, line 9 alone is armed. The breakpoint tool asked for line 7 writes
  the one request for line 7.
\<close>

theorem set_breakpoints_one_line_per_request_witness:
  "isl (fst (snd (debug idle mixedBreakpointParams mixedStartingWorld))) = False \<and>
   fileTable ''/src/main.go''
     (trace (snd (snd (debug idle mixedBreakpointParams mixedStartingWorld)))) = [9] \<and>
   fileTable ''/src/util.go''
     (trace (snd (snd (debug idle mixedBreakpointParams mixedStartingWorld)))) = [5] \<and>
   map spec_Line (Breakpoints twoBreakpointParams) = [3, 9] \<and>
   fileTable ''/src/main.go''
     (trace (snd (snd (debug idle twoBreakpointParams startingWorld)))) = [9] \<and>
   requestsSent (newEvents (exampleWorld [])
      (snd (breakpoint exampleSession
              \<lparr>bpt_File = ''/src/main.go'', bpt_Line = 7, bpt_Function = []\<rparr>
              (exampleWorld [])))) = [SetBreakpointsRequest ''/src/main.go'' [7]]"
proof -
  let ?r = "debug idle mixedBreakpointParams mixedStartingWorld"
  let ?s = "debug idle twoBreakpointParams startingWorld"
  let ?p = "\<lparr>bpt_File = ''/src/main.go'', bpt_Line = 7, bpt_Function = []\<rparr>"
  have run: "?r = (fst ?r, Inr (projr (fst (snd ?r))), snd (snd ?r))"
    by code_simp
  from set_breakpoints_one_line_per_request
         [of mixedStartingWorld idle "[]" ?p "[]" mixedBreakpointParams "[]"]
  have "\<forall>ds' body w' f.
      ?r = (ds', Inr body, w') \<longrightarrow>
      fileTable f (trace w') = lastArmed f (Breakpoints mixedBreakpointParams)"
    by blast
  from this[rule_format, OF run]
  have tab: "fileTable f (trace (snd (snd ?r))) = lastArmed f (Breakpoints mixedBreakpointParams)"
    for f .
  have "lastArmed ''/src/main.go'' (Breakpoints mixedBreakpointParams) = [9]"
    by code_simp
  moreover have "lastArmed ''/src/util.go'' (Breakpoints mixedBreakpointParams) = [5]"
    by code_simp
  moreover have "isl (fst (snd ?r)) = False"
    by code_simp
  moreover have "map spec_Line (Breakpoints twoBreakpointParams) = [3, 9]"
    by code_simp
  moreover have "fileTable ''/src/main.go'' (trace (snd (snd ?s))) = [9]"
  proof -
    have same: "?s = (fst ?s, Inr (projr (fst (snd ?s))), snd (snd ?s)) \<and>
             Breakpoints twoBreakpointParams \<noteq> [] \<and> ''/src/main.go'' \<noteq> [] \<and>
             (\<forall>bp\<in>set (Breakpoints twoBreakpointParams).
                spec_Function bp = [] \<and> spec_File bp = ''/src/main.go'' \<and> 0 < spec_Line bp)"
      by code_simp
    from set_breakpoints_one_line_per_request
           [of startingWorld idle "[]" ?p "[]" twoBreakpointParams "''/src/main.go''"]
    have "\<forall>ds' body w'.
        ?s = (ds', Inr body, w') \<and> Breakpoints twoBreakpointParams \<noteq> [] \<and> ''/src/main.go'' \<noteq> [] \<and>
        (\<forall>bp\<in>set (Breakpoints twoBreakpointParams).
           spec_Function bp = [] \<and> spec_File bp = ''/src/main.go'' \<and> 0 < spec_Line bp) \<longrightarrow>
        fileTable ''/src/main.go'' (trace w') = [spec_Line (last (Breakpoints twoBreakpointParams))]"
      by (elim conjE) assumption
    from this[rule_format, OF same]
    have "fileTable ''/src/main.go'' (trace (snd (snd ?s))) =
            [spec_Line (last (Breakpoints twoBreakpointParams))]" .
    moreover have "spec_Line (last (Breakpoints twoBreakpointParams)) = 9"
      by code_simp
    ultimately show ?thesis
      by simp
  qed
  moreover have "requestsSent (newEvents (exampleWorld [])
      (snd (breakpoint exampleSession ?p (exampleWorld [])))) =
        [SetBreakpointsRequest ''/src/main.go'' [7]]"
  proof -
    have h: "client exampleSession \<noteq> None \<and> bpt_Function ?p = [] \<and> bpt_File ?p \<noteq> [] \<and>
             bpt_Line ?p \<noteq> 0"
      by (simp add: exampleSession_def)
    from set_breakpoints_one_line_per_request
           [of "exampleWorld []" exampleSession "[]" ?p "[]" mixedBreakpointParams "[]"] h
    have "requestsSent (newEvents (exampleWorld [])
            (snd (breakpoint exampleSession ?p (exampleWorld [])))) =
          (case fst (send (SetBreakpointsRequest (bpt_File ?p) [bpt_Line ?p]) (exampleWorld [])) of
             Inl _ \<Rightarrow> []
           | Inr _ \<Rightarrow> [SetBreakpointsRequest (bpt_File ?p) [bpt_Line ?p]])"
      by blast
    moreover have "fst (send (SetBreakpointsRequest (bpt_File ?p) [bpt_Line ?p]) (exampleWorld [])) = Inr ()"
      by (simp add: send_def exampleWorld_def)
    ultimately show ?thesis
      by simp
  qed
  ultimately show ?thesis
    using tab by simp
qed

subsection \<open>The one continue of debug\<close>










subsection \<open>Starting while a session is active\<close>

lemma debug_ignores_session: "snd (debug ds params w) = snd (debug ds0 params w)"
proof -
  have eq: "ds\<lparr>cmd := a, client := b, launchMode := c, programPath := d, programArgs := e\<rparr> =
            ds0\<lparr>cmd := a, client := b, launchMode := c, programPath := d, programArgs := e\<rparr>"
    for a b c d e
    by (cases ds; cases ds0) simp
  show ?thesis
    by (auto simp: debug_def Let_def newDAPClient_def eq
          split: option.splits prod.splits spawn_outcome.splits sum.splits)
qed

lemma inert_noTeardown: "inert e \<Longrightarrow> noTeardown e"
  by (cases e) simp_all

lemma grows_noTeardown_debug: "grows noTeardown w (snd (snd (debug ds params w)))"
  by (rule grows_debug) (simp_all add: inert_noTeardown)

lemma running_append: "running (tr @ es) = foldl runningStep (running tr) es"
  by (simp add: running_def)

lemma foldl_running_noTeardown:
  "list_all noTeardown es \<Longrightarrow> set ps \<subseteq> set (foldl runningStep ps es)"
proof (induction es arbitrary: ps)
  case Nil
  show ?case by simp
next
  case (Cons e es)
  from Cons.prems have "set ps \<subseteq> set (runningStep ps e)"
    by (cases e) auto
  moreover from Cons.prems have "set (runningStep ps e) \<subseteq> set (foldl runningStep (runningStep ps e) es)"
    by (intro Cons.IH) simp
  ultimately show ?case
    by simp
qed

lemma grows_noTeardown_running:
  assumes "grows noTeardown w w'"
  shows "set (running (trace w)) \<subseteq> set (running (trace w'))"
proof -
  from assms obtain es where "trace w' = trace w @ es" and "list_all noTeardown es"
    by (auto simp: grows_iff)
  with foldl_running_noTeardown[of es "running (trace w)"] show ?thesis
    by (simp add: running_append)
qed

lemma debug_new_handle:
  assumes "validate params = None" and "spawnq w = Starts lines # q"
  shows "\<exists>c. cmd (fst (debug ds params w)) = Some c \<and> cmd_Process c = Some (fresh w)"
  using assms
  by (auto simp: debug_def Let_def newDAPClient_def nextSpawn_def
        split: option.splits prod.splits sum.splits)

lemma debug_new_client:
  assumes "validate params = None" and "spawnq w = Starts lines # q"
    and "waitListening lines = None"
  shows "client (fst (debug ds params w)) = Some (Suc (fresh w))"
  using assms
  by (auto simp: debug_def Let_def newDAPClient_def nextSpawn_def emit_def
        split: option.splits prod.splits sum.splits)

text \<open>
  C1, as the code has it. \<open>debug\<close> does not look at the session it is called on: its
  result and its effects are those of the same call on the idle session, so an active
  session is neither stopped nor a reason to reject. No call of \<open>debug\<close> kills a process
  or closes a connection, so every adapter process that was running is still running
  afterwards. When the parameters are valid and the adapter starts, the stored handle is
  the new process; when the adapter also announces its listener, the stored client is the
  new connection.
\<close>

theorem debug_overwrites_active_session:
  "snd (debug ds params w) = snd (debug idle params w) \<and>
   grows noTeardown w (snd (snd (debug ds params w))) \<and>
   set (running (trace w)) \<subseteq> set (running (trace (snd (snd (debug ds params w))))) \<and>
   (validate params = None \<and> (\<exists>lines q. spawnq w = Starts lines # q) \<longrightarrow>
      (\<exists>c. cmd (fst (debug ds params w)) = Some c \<and> cmd_Process c = Some (fresh w))) \<and>
   (validate params = None \<and>
    (\<exists>lines q. spawnq w = Starts lines # q \<and> waitListening lines = None) \<longrightarrow>
      client (fst (debug ds params w)) = Some (Suc (fresh w)))"
  using debug_ignores_session[of ds params w idle] grows_noTeardown_debug[of w ds params]
    grows_noTeardown_running[OF grows_noTeardown_debug[of w ds params]]
    debug_new_handle[of params w _ _ ds] debug_new_client[of params w _ _ ds]
  by blast


text \<open>The theorem at work, on the example session and the start of a second adapter.\<close>

theorem debug_overwrites_active_session_witness:
  "validate binaryParams = None \<and>
   spawnq secondStartWorld = [Starts [''DAP server listening at: 127.0.0.1:9090'']] \<and>
   fresh secondStartWorld = 3 \<and>
   (\<exists>c. cmd (fst (debug exampleSession binaryParams secondStartWorld)) = Some c \<and>
        cmd_Process c = Some 3) \<and>
   client (fst (debug exampleSession binaryParams secondStartWorld)) = Some 4"
proof -
  have h: "validate binaryParams = None \<and>
           (\<exists>lines q. spawnq secondStartWorld = Starts lines # q)"
    by (simp add: validate_def binaryParams_def secondStartWorld_def exampleWorld_def)
  have h2: "validate binaryParams = None \<and>
            (\<exists>lines q. spawnq secondStartWorld = Starts lines # q \<and>
                       waitListening lines = None)"
    by (simp add: validate_def binaryParams_def secondStartWorld_def exampleWorld_def)
  have f: "fresh secondStartWorld = 3"
    by (simp add: secondStartWorld_def exampleWorld_def)
  have s: "spawnq secondStartWorld = [Starts [''DAP server listening at: 127.0.0.1:9090'']]"
    by (simp add: secondStartWorld_def exampleWorld_def)
  from debug_overwrites_active_session[of exampleSession binaryParams secondStartWorld] h h2
  have "(\<exists>c. cmd (fst (debug exampleSession binaryParams secondStartWorld)) = Some c \<and>
             cmd_Process c = Some (fresh secondStartWorld)) \<and>
        client (fst (debug exampleSession binaryParams secondStartWorld)) =
          Some (Suc (fresh secondStartWorld))"
    by blast
  with h f s show ?thesis
    by simp
qed

text \<open>
  C1 as stated fails on the example session, whose adapter is process 1 and whose client
  is connection 2: a second \<open>debug\<close> is not rejected, it stores process 3 and connection 4
  in their place, and process 1 is still running, with nothing left that refers to it.
\<close>

theorem debug_leaks_active_subprocess_counterexample:
  "(map_option cmd_Process (cmd exampleSession), client exampleSession,
    running (trace secondStartWorld)) = (Some (Some 1), Some 2, [1]) \<and>
   (case debug exampleSession binaryParams secondStartWorld of
      (ds', r, w') \<Rightarrow>
        (map_option cmd_Process (cmd ds'), client ds', isl r, running (trace w'),
         filter (\<lambda>e. \<not> noTeardown e) (trace w'))) =
   (Some (Some 3), Some 4, False, [1, 3], [])"
  by code_simp

subsection \<open>Stopping\<close>

lemma stop_never_fails: "\<exists>t. fst (snd (stop ds w)) = Inr t"
  by (simp add: stop_def Let_def split: prod.splits option.splits)

lemma stop_idle: "stop idle w = (idle, Inr ''No debug session active'', w)"
  by (simp add: stop_def idle_def)

lemma stop_clears:
  assumes "cmd ds \<noteq> None \<or> client ds \<noteq> None"
    and "\<forall>c. cmd ds = Some c \<longrightarrow> cmd_Process c \<noteq> None"
  shows "fst (stop ds w) = idle"
  using assms
  by (cases ds) (auto simp: stop_def idle_def Let_def split: option.splits)

text \<open>
  C6 at the session that \<open>debug\<close> leaves when the adapter cannot be started: \<^verbatim>\<open>ds.cmd\<close> was
  assigned before \<^verbatim>\<open>Start\<close> failed, so it is set and its \<^verbatim>\<open>Process\<close> is not. Both calls of
  \<open>stop\<close> return without an error, and \<^verbatim>\<open>ds.cmd\<close> is still set after each of them: line 503
  guards the assignment of \<^verbatim>\<open>nil\<close> together with the kill.
\<close>

theorem stop_keeps_unstarted_cmd:
  "callTools idle [Debug binaryParams, Stop, Stop] noDlvWorld =
     (\<lparr>cmd = Some \<lparr>cmd_Args = [''dlv'', ''dap'', ''--listen'', '':9090'',
                                ''--log'', ''--log-output'', ''dap''],
                    cmd_Process = None\<rparr>,
       client = None, launchMode = [], programPath = [], programArgs = []\<rparr>,
      [Inl ''exec: dlv: executable file not found'',
       Inr ''Debug session stopped'',
       Inr ''Debug session stopped''],
      \<lparr>inbox = [], sendq = [], spawnq = [], killq = [], fresh = 1, trace = []\<rparr>)"
  by code_simp

subsection \<open>Clearing all breakpoints\<close>

lemma clear_all_keeps_every_file_table:
  assumes "clear_All params"
  shows "fileTable f (trace (snd (clearBreakpoints ds params w))) = fileTable f (trace w)"
proof -
  from assms have "quiet keepsFileTables (clearBreakpoints ds params)"
    unfolding clearBreakpoints_def
    by (auto intro!: quiet_andThen quiet_send[of keepsFileTables, OF _ inert_keepsFileTables]
          quiet_ReadMessage[of keepsFileTables, OF inert_keepsFileTables])
  then show ?thesis
    by (rule grows_keeps_fileTable[OF quietD])
qed

text \<open>
  C2 at a session in which line 7 of a file was armed with the breakpoint tool before
  clear-breakpoints is called with all=true: the call writes the one request that empties
  the function table and reports "Cleared all breakpoints"; in the adapter's table of the
  file, line 7 is still armed.
\<close>

theorem clear_all_keeps_file_breakpoints:
  "(case callTools exampleSession
           [BreakpointTool \<lparr>bpt_File = ''/src/main.go'', bpt_Line = 7, bpt_Function = []\<rparr>,
            ClearBreakpoints \<lparr>clear_File = [], clear_All = True\<rparr>]
           (exampleWorld
              [Inr (SetBreakpointsResponse True []
                      [\<lparr>bp_Id = 1, bp_Verified = True, bp_Message = [], bp_Line = 7\<rparr>]),
               Inr (OtherResponse ''*dap.SetFunctionBreakpointsResponse'' True [])]) of
      (ds, rs, w) \<Rightarrow>
        (rs, requestsSent (trace w), fileTable ''/src/main.go'' (trace w),
         functionTable (trace w))) =
   ([Inr ''Breakpoint 1 set at /src/main.go:7'', Inr ''Cleared all breakpoints''],
    [SetBreakpointsRequest ''/src/main.go'' [7], SetFunctionBreakpointsRequest []],
    [7], [])"
  by code_simp

subsection \<open>Restarting\<close>

lemma restartDebugger_ignores_stored:
  "client ds1 = client ds2 \<Longrightarrow> restartDebugger ds1 args = restartDebugger ds2 args"
  by (simp add: restartDebugger_def)

lemma restartDebugger_request:
  assumes "client ds \<noteq> None"
  shows "requestsSent (newEvents w (snd (restartDebugger ds args w))) =
           (case fst (send (RestartRequest ''launch'' ''exec'' False args False) w) of
              Inl _ \<Rightarrow> []
            | Inr _ \<Rightarrow> [RestartRequest ''launch'' ''exec'' False args False])"
proof -
  let ?R = "RestartRequest ''launch'' ''exec'' False args False"
  from assms obtain c where c: "client ds = Some c"
    by blast
  obtain r w1 where s: "send ?R w = (r, w1)"
    by (cases "send ?R w")
  show ?thesis
  proof (cases r)
    case (Inl e)
    with s have "trace w1 = trace w @ [SendFailed ?R e]"
      by (auto simp: send_def emit_def split: list.splits option.splits)
    with c s Inl show ?thesis
      by (simp add: restartDebugger_def andThen_def newEvents_def)
  next
    case (Inr u)
    obtain r2 w2 where rv: "readAndValidateResponse ''unable to restart debugger'' w1 = (r2, w2)"
      by (cases "readAndValidateResponse ''unable to restart debugger'' w1")
    from rv obtain es where es: "trace w2 = trace w1 @ es" "requestsSent es = []"
      by (rule readAndValidateResponse_sends_nothing)
    from c s Inr rv have "snd (restartDebugger ds args w) = w2"
      by (cases r2) (simp_all add: restartDebugger_def andThen_def succeed_def)
    with send_InrD[OF s[unfolded Inr]] es s Inr show ?thesis
      by (simp add: newEvents_def)
  qed
qed

text \<open>
  C3 at a session started with the argument "world" and a restart that leaves its
  \<^verbatim>\<open>args\<close> out: the restart request carries no arguments, not the stored ones, and mode
  "exec" whatever the stored launch mode is.
\<close>

theorem restart_without_args_drops_stored_args:
  "(case callTool exampleSession (Restart [])
           (exampleWorld [Inr (OtherResponse ''*dap.RestartResponse'' True [])]) of
      (ds, r, w) \<Rightarrow> (programArgs ds, r, requestsSent (trace w))) =
   ([''world''], Inr ''Restarted debugging session'',
    [RestartRequest ''launch'' ''exec'' False [] False])"
  by code_simp

subsection \<open>Running to a location\<close>

lemma quiet_keepsFileTables_awaitStopped: "quiet keepsFileTables (awaitStopped ds p)"
  by (rule quiet_awaitStopped)
     (simp_all add: inert_keepsFileTables inspecting_keepsFileTables)

lemma continue_to_file_stays_armed:
  assumes run: "continueExecution ds params w = (Inr body, w')"
    and to: "cont_To params = Some target"
    and target: "spec_Function target = []" "spec_File target = f" "f \<noteq> []"
      "0 < spec_Line target"
  shows "fileTable f (trace w') = [spec_Line target]"
proof -
  from run have c: "client ds \<noteq> None"
    by (auto simp: continueExecution_def failWith_def split: if_splits)
  with run obtain u w1 where tb: "setToBreakpoint (cont_To params) w = (Inr u, w1)"
    and rest: "andThen (send (ContinueRequest (cont_ThreadID params)))
                 (\<lambda>_. awaitStopped ds ''continue failed: '') w1 = (Inr body, w')"
    by (auto simp: continueExecution_def elim: andThen_eq_InrD)
  from tb to target obtain v wa where s: "send (SetBreakpointsRequest f [spec_Line target]) w = (Inr v, wa)"
    and rd: "andThen ReadMessage (\<lambda>_. succeed ()) wa = (Inr u, w1)"
    by (auto simp: setToBreakpoint_def elim: andThen_eq_InrD)
  from rd obtain m where rm: "ReadMessage wa = (Inr m, w1)"
    by (auto simp: succeed_def elim!: andThen_eq_InrD)
  from send_InrD[OF s] ReadMessage_trace[OF rm]
  have "trace w1 = trace w @ [Sent (SetBreakpointsRequest f [spec_Line target]), Received m]"
    by simp
  then have t1: "fileTable f (trace w1) = [spec_Line target]"
    by (simp add: fileTable_append)
  have "quiet keepsFileTables (andThen (send (ContinueRequest (cont_ThreadID params)))
                 (\<lambda>_. awaitStopped ds ''continue failed: ''))"
    by (intro quiet_andThen quiet_send quiet_keepsFileTables_awaitStopped)
       (simp_all add: inert_keepsFileTables)
  from quietD2[OF this rest] have "fileTable f (trace w') = fileTable f (trace w1)"
    by (rule grows_keeps_fileTable)
  with t1 show ?thesis
    by simp
qed

text \<open>
  C7 at a continue with a \<^verbatim>\<open>to\<close> target of line 9, followed by a plain continue: the
  target is armed by an ordinary set-breakpoints request, nothing is written that would
  disarm it after the stop, and line 9 is still in the adapter's table of the file when
  either call has returned.
\<close>

theorem continue_to_target_stays_armed:
  "(case callTools exampleSession
           [Continue \<lparr>cont_ThreadID = 0,
                      cont_To = Some \<lparr>spec_File = ''/src/main.go'', spec_Line = 9,
                                       spec_Function = []\<rparr>\<rparr>,
            Continue \<lparr>cont_ThreadID = 0, cont_To = None\<rparr>]
           (exampleWorld
              [Inr (SetBreakpointsResponse True []
                      [\<lparr>bp_Id = 1, bp_Verified = True, bp_Message = [], bp_Line = 9\<rparr>]),
               Inr (OtherResponse ''*dap.ContinueResponse'' True []),
               Inr (StoppedEvent 1),
               Inr (StackTraceResponse True [] [mainFrame]),
               Inr (ScopesResponse True [] []),
               Inr (OtherResponse ''*dap.ContinueResponse'' True []),
               Inr (StoppedEvent 1),
               Inr (StackTraceResponse True [] [mainFrame]),
               Inr (ScopesResponse True [] [])]) of
      (ds, rs, w) \<Rightarrow>
        (map isl rs, requestsSent (trace w), fileTable ''/src/main.go'' (trace w))) =
   ([False, False],
    [SetBreakpointsRequest ''/src/main.go'' [9], ContinueRequest 0,
     StackTraceRequest 1 0 20, ScopesRequest 1000, ContinueRequest 0,
     StackTraceRequest 1 0 20, ScopesRequest 1000],
    [9])"
  by code_simp

subsection \<open>Validation comes before any effect\<close>

lemma validate_cases:
  "validate params \<noteq> None \<longleftrightarrow>
     (Mode params \<noteq> ''source'' \<and> Mode params \<noteq> ''binary'' \<and> Mode params \<noteq> ''attach'') \<or>
     (Mode params = ''attach'' \<and> ProcessID params = 0) \<or>
     ((Mode params = ''source'' \<or> Mode params = ''binary'') \<and> Path params = [])"
  by (auto simp: validate_def)

text \<open>
  C8. A call of \<open>debug\<close> with a mode other than source, binary and attach, with mode attach
  and no process id, or with mode source or binary and no path, returns an error and is
  otherwise a no-op: the session that comes back is the session that went in, and so is
  the world, so that nothing was spawned, connected, written or read.
\<close>

theorem debug_rejects_invalid_before_io:
  assumes "(Mode params \<noteq> ''source'' \<and> Mode params \<noteq> ''binary'' \<and> Mode params \<noteq> ''attach'') \<or>
           (Mode params = ''attach'' \<and> ProcessID params = 0) \<or>
           ((Mode params = ''source'' \<or> Mode params = ''binary'') \<and> Path params = [])"
  shows "\<exists>err. validate params = Some err \<and> debug ds params w = (ds, Inl err, w)"
proof -
  from assms have "validate params \<noteq> None"
    by (simp only: validate_cases)
  then obtain err where "validate params = Some err"
    by blast
  then show ?thesis
    by (simp add: debug_def)
qed

theorem debug_rejects_invalid_before_io_witness:
  "((''attach'' \<noteq> ''source'' \<and> ''attach'' \<noteq> ''binary'' \<and> ''attach'' \<noteq> ''attach'') \<or>
    (''attach'' = ''attach'' \<and> (0::int) = 0) \<or>
    ((''attach'' = ''source'' \<or> ''attach'' = ''binary'') \<and> ''/tmp/prog'' = [])) \<and>
   (\<exists>err.
      validate \<lparr>Mode = ''attach'', Path = ''/tmp/prog'', Args = [], ProcessID = 0,
                Breakpoints = [], StopOnEntry = False, Port = []\<rparr> = Some err \<and>
      debug idle
      \<lparr>Mode = ''attach'', Path = ''/tmp/prog'', Args = [], ProcessID = 0, Breakpoints = [],
       StopOnEntry = False, Port = []\<rparr>
      \<lparr>inbox = [], sendq = [], spawnq = [Starts []], killq = [], fresh = 1,
       trace = []\<rparr>
    = (idle, Inl err,
       \<lparr>inbox = [], sendq = [], spawnq = [Starts []], killq = [], fresh = 1,
        trace = []\<rparr>))"
  using debug_rejects_invalid_before_io
    [of "\<lparr>Mode = ''attach'', Path = ''/tmp/prog'', Args = [], ProcessID = 0, Breakpoints = [],
          StopOnEntry = False, Port = []\<rparr>" idle
        "\<lparr>inbox = [], sendq = [], spawnq = [Starts []], killq = [], fresh = 1,
          trace = []\<rparr>"]
  by simp

end
